theory Spec2Isabelle
  imports Main "HOL-Library.AList"
begin

section \<open>The file system seen by \<open>util/generate_hard_docs.py\<close>\<close>

text \<open>
  The script is a straight sequence of calls into \<open>os\<close>, \<open>open\<close> and \<open>print\<close>. The
  model gives each of these calls a meaning on an explicit world: the tree of the current
  working directory and the list of effects performed so far. A path is the list of its
  components below the working directory, so \<open>os.path.join\<close> adds one component. A
  directory is an association list; its order is the order in which \<open>os.listdir\<close>
  reports the entries. A file holds bytes, one \<open>char\<close> each. The paths are those of a
  POSIX system, where \<open>os.linesep\<close> is the line feed and a text-mode \<open>write\<close> stores the
  characters it is given; a text-mode \<open>read\<close> decodes the bytes and translates the line
  ends, as described with \<open>f_read\<close> below.
\<close>

type_synonym path = "string list"

datatype node = File string | Dir "(string \<times> node) list"

type_synonym entries = "(string \<times> node) list"

fun is_File :: "node \<Rightarrow> bool" where
  "is_File (File c) = True"
| "is_File (Dir es) = False"

fun lookup :: "entries \<Rightarrow> path \<Rightarrow> node option" where
  "lookup es [] = Some (Dir es)"
| "lookup es [c] = map_of es c"
| "lookup es (c # cs) =
     (case map_of es c of Some (Dir sub) \<Rightarrow> lookup sub cs | _ \<Rightarrow> None)"

fun store :: "entries \<Rightarrow> path \<Rightarrow> node \<Rightarrow> entries" where
  "store es [] n = es"
| "store es [c] n = AList.update c n es"
| "store es (c # cs) n =
     (case map_of es c of
        Some (Dir sub) \<Rightarrow> AList.update c (Dir (store sub cs n)) es
      | _ \<Rightarrow> es)"

fun unlink :: "entries \<Rightarrow> path \<Rightarrow> entries" where
  "unlink es [] = es"
| "unlink es [c] = AList.delete c es"
| "unlink es (c # cs) =
     (case map_of es c of
        Some (Dir sub) \<Rightarrow> AList.update c (Dir (unlink sub cs)) es
      | _ \<Rightarrow> es)"

text \<open>
  The calls that can raise. The operating system may refuse any of them for a reason that
  the tree does not show (permissions, a full disk, an I/O error): \<open>denies\<close> says which
  calls it refuses during the run, and \<open>flushed\<close> how many characters of a refused write
  reached the file before the refusal.
\<close>

datatype syscall =
    Listdir path
  | Remove path
  | Rmdir path
  | Mkdir path
  | OpenRead path
  | Read path
  | OpenWrite path
  | Write path

text \<open>
  The text encoding of \<open>open\<close> is not chosen by the script: the Python runtime derives it
  from the environment variables of the process (the locale variables, \<open>PYTHONUTF8\<close>).
  That rule belongs to the runtime and is a parameter here, \<open>encoding\<close>.
\<close>

datatype codec = UTF_8 | ASCII | Latin_1

record env =
  denies :: "syscall \<Rightarrow> bool"
  flushed :: "path \<Rightarrow> nat"
  encoding :: "(string \<times> string) list \<Rightarrow> codec"

datatype exn_kind =
    FileNotFoundError
  | IsADirectoryError
  | NotADirectoryError
  | FileExistsError
  | UnicodeDecodeError
  | OSError

type_synonym error = "exn_kind \<times> syscall"

datatype 'a result = Ok 'a | Raise error

datatype event =
    Removed path
  | RemovedDir path
  | MadeDir path
  | Opened path
  | Wrote path string
  | Printed string

record world =
  fs :: entries
  events :: "event list"
  argv :: "string list"
  environ :: "(string \<times> string) list"

fun printed :: "event \<Rightarrow> string" where
  "printed (Printed s) = s @ [CHR 0x0A]"
| "printed _ = []"

definition stdout :: "world \<Rightarrow> string" where
  "stdout w = concat (map printed (events w))"

text \<open>An exception ends the run in the world it was raised in.\<close>

definition seq ::
  "'a result \<times> world \<Rightarrow> ('a \<Rightarrow> world \<Rightarrow> 'b result \<times> world) \<Rightarrow> 'b result \<times> world" where
  "seq m f = (case m of (Raise e, w) \<Rightarrow> (Raise e, w) | (Ok x, w) \<Rightarrow> f x w)"

subsection \<open>The library calls\<close>

definition os_path_join :: "path \<Rightarrow> string \<Rightarrow> path" where
  "os_path_join d name = d @ [name]"

definition os_path_exists :: "path \<Rightarrow> world \<Rightarrow> bool" where
  "os_path_exists p w = (lookup (fs w) p \<noteq> None)"

definition os_listdir :: "env \<Rightarrow> path \<Rightarrow> world \<Rightarrow> string list result \<times> world" where
  "os_listdir en p w =
     (case lookup (fs w) p of
        None \<Rightarrow> (Raise (FileNotFoundError, Listdir p), w)
      | Some (File c) \<Rightarrow> (Raise (NotADirectoryError, Listdir p), w)
      | Some (Dir es) \<Rightarrow>
          if denies en (Listdir p) then (Raise (OSError, Listdir p), w)
          else (Ok (map fst es), w))"

definition os_remove :: "env \<Rightarrow> path \<Rightarrow> world \<Rightarrow> unit result \<times> world" where
  "os_remove en p w =
     (case lookup (fs w) p of
        None \<Rightarrow> (Raise (FileNotFoundError, Remove p), w)
      | Some (Dir es) \<Rightarrow> (Raise (IsADirectoryError, Remove p), w)
      | Some (File c) \<Rightarrow>
          if denies en (Remove p) then (Raise (OSError, Remove p), w)
          else (Ok (), w\<lparr>fs := unlink (fs w) p, events := events w @ [Removed p]\<rparr>))"

definition os_rmdir :: "env \<Rightarrow> path \<Rightarrow> world \<Rightarrow> unit result \<times> world" where
  "os_rmdir en p w =
     (case lookup (fs w) p of
        None \<Rightarrow> (Raise (FileNotFoundError, Rmdir p), w)
      | Some (File c) \<Rightarrow> (Raise (NotADirectoryError, Rmdir p), w)
      | Some (Dir (e # es)) \<Rightarrow> (Raise (OSError, Rmdir p), w)
      | Some (Dir []) \<Rightarrow>
          if denies en (Rmdir p) then (Raise (OSError, Rmdir p), w)
          else (Ok (), w\<lparr>fs := unlink (fs w) p, events := events w @ [RemovedDir p]\<rparr>))"

definition os_mkdir :: "env \<Rightarrow> path \<Rightarrow> world \<Rightarrow> unit result \<times> world" where
  "os_mkdir en p w =
     (case lookup (fs w) p of
        Some n \<Rightarrow> (Raise (FileExistsError, Mkdir p), w)
      | None \<Rightarrow>
         (case lookup (fs w) (butlast p) of
            None \<Rightarrow> (Raise (FileNotFoundError, Mkdir p), w)
          | Some (File c) \<Rightarrow> (Raise (NotADirectoryError, Mkdir p), w)
          | Some (Dir es) \<Rightarrow>
              if denies en (Mkdir p) then (Raise (OSError, Mkdir p), w)
              else (Ok (), w\<lparr>fs := store (fs w) p (Dir []),
                               events := events w @ [MadeDir p]\<rparr>)))"

text \<open>
  \<open>open(p, 'r')\<close> and \<open>open(p, 'w')\<close> return a file object; the model lets the
  path stand for it. Opening for writing creates the file, or empties it, before anything
  is written. The \<open>with\<close> statement closes the file on both exits and adds no case.
\<close>

definition open_r :: "env \<Rightarrow> path \<Rightarrow> world \<Rightarrow> path result \<times> world" where
  "open_r en p w =
     (case lookup (fs w) p of
        None \<Rightarrow> (Raise (FileNotFoundError, OpenRead p), w)
      | Some (Dir es) \<Rightarrow> (Raise (IsADirectoryError, OpenRead p), w)
      | Some (File c) \<Rightarrow>
          if denies en (OpenRead p) then (Raise (OSError, OpenRead p), w)
          else (Ok p, w))"

text \<open>
  Reading in text mode. The bytes are decoded strictly in the encoding the environment
  selects, and a byte sequence that is not valid in it raises \<open>UnicodeDecodeError\<close>. The
  three encodings agree with ASCII on the bytes below 128, and encoding what was decoded
  gives the bytes back, so the model keeps a text as its bytes. With the default
  \<open>newline=None\<close> the read then turns every carriage return followed by a line feed, and
  every other carriage return, into one line feed.
\<close>

fun utf8 :: "nat list \<Rightarrow> bool" where
  "utf8 [] = True"
| "utf8 (a # bs) =
     (if a < 0x80 then utf8 bs
      else if 0xC2 \<le> a \<and> a \<le> 0xDF then
        (case bs of
           b # r \<Rightarrow> 0x80 \<le> b \<and> b \<le> 0xBF \<and> utf8 r
         | _ \<Rightarrow> False)
      else if 0xE0 \<le> a \<and> a \<le> 0xEF then
        (case bs of
           b # c # r \<Rightarrow>
             (if a = 0xE0 then 0xA0 else 0x80) \<le> b \<and> b \<le> (if a = 0xED then 0x9F else 0xBF) \<and>
             0x80 \<le> c \<and> c \<le> 0xBF \<and> utf8 r
         | _ \<Rightarrow> False)
      else if 0xF0 \<le> a \<and> a \<le> 0xF4 then
        (case bs of
           b # c # d # r \<Rightarrow>
             (if a = 0xF0 then 0x90 else 0x80) \<le> b \<and> b \<le> (if a = 0xF4 then 0x8F else 0xBF) \<and>
             0x80 \<le> c \<and> c \<le> 0xBF \<and> 0x80 \<le> d \<and> d \<le> 0xBF \<and> utf8 r
         | _ \<Rightarrow> False)
      else False)"

fun decodable :: "codec \<Rightarrow> string \<Rightarrow> bool" where
  "decodable UTF_8 bs = utf8 (map of_char bs)"
| "decodable ASCII bs = list_all (\<lambda>b. (of_char b :: nat) < 0x80) bs"
| "decodable Latin_1 bs = True"

fun universal_newlines :: "string \<Rightarrow> string" where
  "universal_newlines [] = []"
| "universal_newlines [c] = [if c = CHR 0x0D then CHR 0x0A else c]"
| "universal_newlines (c # d # cs) =
     (if c = CHR 0x0D
      then (if d = CHR 0x0A then CHR 0x0A # universal_newlines cs
            else CHR 0x0A # universal_newlines (d # cs))
      else c # universal_newlines (d # cs))"

definition f_read :: "env \<Rightarrow> path \<Rightarrow> world \<Rightarrow> string result \<times> world" where
  "f_read en f w =
     (case lookup (fs w) f of
        Some (File bs) \<Rightarrow>
          if denies en (Read f) then (Raise (OSError, Read f), w)
          else if \<not> decodable (encoding en (environ w)) bs
          then (Raise (UnicodeDecodeError, Read f), w)
          else (Ok (universal_newlines bs), w)
      | _ \<Rightarrow> (Raise (OSError, Read f), w))"

definition open_w :: "env \<Rightarrow> path \<Rightarrow> world \<Rightarrow> path result \<times> world" where
  "open_w en p w =
     (case lookup (fs w) p of
        Some (Dir es) \<Rightarrow> (Raise (IsADirectoryError, OpenWrite p), w)
      | _ \<Rightarrow>
         (case lookup (fs w) (butlast p) of
            None \<Rightarrow> (Raise (FileNotFoundError, OpenWrite p), w)
          | Some (File c) \<Rightarrow> (Raise (NotADirectoryError, OpenWrite p), w)
          | Some (Dir es) \<Rightarrow>
              if denies en (OpenWrite p) then (Raise (OSError, OpenWrite p), w)
              else (Ok p, w\<lparr>fs := store (fs w) p (File []),
                              events := events w @ [Opened p]\<rparr>)))"

definition f_write :: "env \<Rightarrow> path \<Rightarrow> string \<Rightarrow> world \<Rightarrow> unit result \<times> world" where
  "f_write en f s w =
     (if denies en (Write f)
      then (Raise (OSError, Write f),
            w\<lparr>fs := store (fs w) f (File (take (flushed en f) s)),
              events := events w @ [Wrote f (take (flushed en f) s)]\<rparr>)
      else (Ok (), w\<lparr>fs := store (fs w) f (File s), events := events w @ [Wrote f s]\<rparr>))"

definition print :: "string \<Rightarrow> world \<Rightarrow> unit result \<times> world" where
  "print s w = (Ok (), w\<lparr>events := events w @ [Printed s]\<rparr>)"

text \<open>\<open>str(i)\<close> and \<open>range(n)\<close>, for the non-negative integers the script formats.\<close>

definition digit_char :: "nat \<Rightarrow> char" where
  "digit_char d = char_of (48 + d)"

fun str :: "nat \<Rightarrow> string" where
  "str n = (if n < 10 then [digit_char n] else str (n div 10) @ [digit_char (n mod 10)])"

definition py_range :: "nat \<Rightarrow> nat list" where
  "py_range n = [0..<n]"

section \<open>The script\<close>

definition dir :: path where
  "dir = [''hard_docs'']"

definition docs_path :: path where
  "docs_path = [''docs.txt'']"

fun remove_each :: "env \<Rightarrow> string list \<Rightarrow> world \<Rightarrow> unit result \<times> world" where
  "remove_each en [] w = (Ok (), w)"
| "remove_each en (filename # rest) w =
     seq (os_remove en (os_path_join dir filename) w) (\<lambda>_. remove_each en rest)"

definition reset :: "env \<Rightarrow> world \<Rightarrow> unit result \<times> world" where
  "reset en w =
     (if os_path_exists dir w
      then seq (os_listdir en dir w) (\<lambda>names w1.
           seq (remove_each en names w1) (\<lambda>_ w2.
           os_rmdir en dir w2))
      else (Ok (), w))"

definition file_name :: "nat \<Rightarrow> string" where
  "file_name i = str i @ ''.txt''"

definition file_content :: "string \<Rightarrow> nat \<Rightarrow> string" where
  "file_content docs_content i = str i @ [CHR 0x0A] @ docs_content"

fun generate :: "env \<Rightarrow> string \<Rightarrow> nat list \<Rightarrow> world \<Rightarrow> unit result \<times> world" where
  "generate en docs_content [] w = (Ok (), w)"
| "generate en docs_content (i # rest) w =
     seq (open_w en (os_path_join dir (file_name i)) w) (\<lambda>f w1.
     seq (f_write en f (file_content docs_content i) w1) (\<lambda>_.
     generate en docs_content rest))"

definition main :: "env \<Rightarrow> world \<Rightarrow> unit result \<times> world" where
  "main en w =
     seq (reset en w) (\<lambda>_ w1.
     seq (os_mkdir en dir w1) (\<lambda>_ w2.
     seq (open_r en docs_path w2) (\<lambda>f w3.
     seq (f_read en f w3) (\<lambda>docs_content w4.
     seq (generate en docs_content (py_range 51) w4) (\<lambda>_ w5.
     print ''Files created successfully.'' w5)))))"

text \<open>
  What a complete run is expected to leave in the output directory for the indices \<open>is\<close>,
  and the effects of writing these files one after the other.
\<close>

definition expected :: "string \<Rightarrow> nat list \<Rightarrow> entries" where
  "expected docs_content is = map (\<lambda>i. (file_name i, File (file_content docs_content i))) is"

definition written :: "string \<Rightarrow> nat list \<Rightarrow> event list" where
  "written docs_content is =
     concat (map (\<lambda>i. [Opened (os_path_join dir (file_name i)),
                        Wrote (os_path_join dir (file_name i)) (file_content docs_content i)]) is)"


subsection \<open>Concrete systems and worlds\<close>

text \<open>
  Operating systems: \<open>env_ok\<close> refuses nothing and decodes as UTF-8; \<open>env_full\<close> refuses
  the write to \<open>hard_docs/3.txt\<close> before any character reaches the file, as a full disk
  does; \<open>env_nomkdir\<close> refuses to create \<open>hard_docs\<close>; \<open>env_locale\<close> refuses nothing and
  picks the encoding as CPython does in two settings: ASCII when \<open>LC_ALL\<close> is \<open>POSIX\<close>
  and \<open>PYTHONUTF8\<close> is \<open>0\<close>, UTF-8 when \<open>PYTHONUTF8\<close> is \<open>1\<close> (and UTF-8 elsewhere).

  Worlds: \<open>w_fresh\<close> has the source document and no output directory; \<open>w_stale\<close> has an
  output directory with an unrelated file; \<open>w_crlf\<close> has a source document with a DOS
  line end; \<open>w_nodocs\<close> has no source document; \<open>w_subdir\<close> has no source document,
  and an output directory that lists a subdirectory before the 51 files of an earlier
  run; \<open>w_partial\<close> has no source document, and an output directory that lists a file
  before a subdirectory; \<open>w_nested\<close> is \<open>w_partial\<close> with a source document; \<open>w_empty\<close>
  is a world at the entry of the generation loop; \<open>w_utf8\<close> and \<open>w_posix\<close> have the same
  file system, with a source document that is valid UTF-8 and not ASCII, and differ in
  their environment variables only.
\<close>

definition env_ok :: env where
  "env_ok = \<lparr>denies = (\<lambda>c. False), flushed = (\<lambda>p. 0), encoding = (\<lambda>v. UTF_8)\<rparr>"

definition env_full :: env where
  "env_full = \<lparr>denies = (\<lambda>c. c = Write [''hard_docs'', ''3.txt'']), flushed = (\<lambda>p. 0),
                encoding = (\<lambda>v. UTF_8)\<rparr>"

definition env_nomkdir :: env where
  "env_nomkdir = \<lparr>denies = (\<lambda>c. c = Mkdir [''hard_docs'']), flushed = (\<lambda>p. 0),
                   encoding = (\<lambda>v. UTF_8)\<rparr>"



definition hello_world :: string where
  "hello_world = ''Hello'' @ [CHR 0x0A] @ ''World''"

definition w_fresh :: world where
  "w_fresh = \<lparr>fs = [(''docs.txt'', File hello_world)], events = [], argv = [], environ = []\<rparr>"

definition w_stale :: world where
  "w_stale = \<lparr>fs = [(''hard_docs'', Dir [(''stale.txt'', File ''old'')]),
                     (''docs.txt'', File hello_world)],
              events = [], argv = [], environ = []\<rparr>"




definition w_partial :: world where
  "w_partial = \<lparr>fs = [(''hard_docs'', Dir [(''0.txt'', File ''old''), (''sub'', Dir [])])],
                events = [], argv = [], environ = []\<rparr>"

definition w_nodocs :: world where
  "w_nodocs = \<lparr>fs = [(''hard_docs'', Dir [(''stale.txt'', File ''old'')])],
               events = [], argv = [], environ = []\<rparr>"

definition w_subdir :: world where
  "w_subdir = \<lparr>fs = [(''hard_docs'', Dir ((''sub'', Dir []) # expected ''old'' (py_range 51)))],
               events = [], argv = [], environ = []\<rparr>"

definition w_nested :: world where
  "w_nested = \<lparr>fs = [(''docs.txt'', File hello_world),
                      (''hard_docs'', Dir [(''0.txt'', File ''old''), (''sub'', Dir [])])],
               events = [], argv = [], environ = []\<rparr>"

definition w_empty :: world where
  "w_empty = \<lparr>fs = [(''docs.txt'', File hello_world), (''hard_docs'', Dir [])],
              events = [MadeDir [''hard_docs'']], argv = [], environ = []\<rparr>"

section \<open>Sequencing and the single calls\<close>

declare str.simps [simp del]

lemma seq_Ok [simp]: "seq (Ok x, w) f = f x w"
  by (simp add: seq_def)

lemma seq_Raise [simp]: "seq (Raise e, w) f = (Raise e, w)"
  by (simp add: seq_def)

lemma seq_eq_Ok:
  "seq m f = (Ok y, w') \<longleftrightarrow> (\<exists>x w1. m = (Ok x, w1) \<and> f x w1 = (Ok y, w'))"
  by (cases m; cases "fst m") (auto simp: seq_def split: result.splits)

lemma seq_eq_Raise:
  "seq m f = (Raise e, w') \<longleftrightarrow>
     m = (Raise e, w') \<or> (\<exists>x w1. m = (Ok x, w1) \<and> f x w1 = (Raise e, w'))"
  by (cases m; cases "fst m") (auto simp: seq_def split: result.splits)

lemmas paths = dir_def docs_path_def os_path_join_def

lemma delete_filter: "AList.delete k es = filter (\<lambda>p. fst p \<noteq> k) es"
  by (induction es) auto

lemma os_remove_Ok:
  "os_remove en [d, n] w = (Ok u, w') \<longleftrightarrow>
     (\<exists>es c. map_of (fs w) d = Some (Dir es) \<and> map_of es n = Some (File c) \<and>
        \<not> denies en (Remove [d, n]) \<and>
        w' = w\<lparr>fs := AList.update d (Dir (AList.delete n es)) (fs w),
                events := events w @ [Removed [d, n]]\<rparr>)"
  by (auto simp: os_remove_def split: option.splits node.splits)

lemma os_remove_Raise:
  "os_remove en p w = (Raise e, w') \<Longrightarrow> w' = w \<and> (\<exists>k. e = (k, Remove p))"
  by (auto simp: os_remove_def split: option.splits node.splits if_splits)

lemma remove_each_Ok:
  "remove_each en ns w = (Ok u, w') \<Longrightarrow> map_of (fs w) ''hard_docs'' = Some (Dir es) \<Longrightarrow>
     w' = w\<lparr>fs := AList.update ''hard_docs'' (Dir (filter (\<lambda>p. fst p \<notin> set ns) es)) (fs w),
             events := events w @ map (\<lambda>n. Removed [''hard_docs'', n]) ns\<rparr> \<and>
     distinct ns \<and>
     (\<forall>n\<in>set ns. (\<exists>c. map_of es n = Some (File c)) \<and> \<not> denies en (Remove [''hard_docs'', n]))"
proof (induction ns arbitrary: w es)
  case Nil
  then show ?case by (simp add: AList.update_triv)
next
  case (Cons a ns)
  from Cons.prems(1) obtain w1 where
    a: "os_remove en [''hard_docs'', a] w = (Ok (), w1)" and
    r: "remove_each en ns w1 = (Ok u, w')"
    by (auto simp: seq_eq_Ok paths)
  from a Cons.prems(2) obtain c where
    c: "map_of es a = Some (File c)" and
    nd: "\<not> denies en (Remove [''hard_docs'', a])" and
    w1: "w1 = w\<lparr>fs := AList.update ''hard_docs'' (Dir (AList.delete a es)) (fs w),
                 events := events w @ [Removed [''hard_docs'', a]]\<rparr>"
    by (auto simp: os_remove_Ok)
  have m1: "map_of (fs w1) ''hard_docs'' = Some (Dir (AList.delete a es))"
    by (simp add: w1 AList.update_conv')
  note ih = Cons.IH [OF r m1]
  have notin: "a \<notin> set ns"
  proof
    assume "a \<in> set ns"
    with ih have "\<exists>c. map_of (AList.delete a es) a = Some (File c)" by blast
    then show False by (simp add: AList.delete_conv')
  qed
  have files: "\<forall>n\<in>set ns. \<exists>c. map_of es n = Some (File c)"
  proof
    fix n assume n: "n \<in> set ns"
    with notin have "n \<noteq> a" by auto
    then have "map_of (AList.delete a es) n = map_of es n" by simp
    moreover from ih n have "\<exists>c. map_of (AList.delete a es) n = Some (File c)" by blast
    ultimately show "\<exists>c. map_of es n = Some (File c)" by simp
  qed
  have flt: "filter (\<lambda>p. fst p \<notin> set ns) (AList.delete a es) =
             filter (\<lambda>p. fst p \<notin> set (a # ns)) es"
    by (auto simp: delete_filter intro: filter_cong)
  from ih have "w' = w1\<lparr>fs := AList.update ''hard_docs''
                        (Dir (filter (\<lambda>p. fst p \<notin> set ns) (AList.delete a es))) (fs w1),
                      events := events w1 @ map (\<lambda>n. Removed [''hard_docs'', n]) ns\<rparr>"
    by blast
  then have "w' = w\<lparr>fs := AList.update ''hard_docs''
                        (Dir (filter (\<lambda>p. fst p \<notin> set (a # ns)) es)) (fs w),
                    events := events w @ map (\<lambda>n. Removed [''hard_docs'', n]) (a # ns)\<rparr>"
    by (simp add: w1 flt)
  with notin files c nd ih show ?case by auto
qed

lemma remove_each_Raise:
  "remove_each en ns w = (Raise e, w') \<Longrightarrow> map_of (fs w) ''hard_docs'' = Some (Dir es) \<Longrightarrow>
     \<exists>pre n post k. ns = pre @ n # post \<and> e = (k, Remove [''hard_docs'', n]) \<and>
       w' = w\<lparr>fs := AList.update ''hard_docs'' (Dir (filter (\<lambda>p. fst p \<notin> set pre) es)) (fs w),
               events := events w @ map (\<lambda>n. Removed [''hard_docs'', n]) pre\<rparr>"
proof (induction ns arbitrary: w es)
  case Nil
  then show ?case by simp
next
  case (Cons a ns)
  from Cons.prems(1) consider
    (here) "os_remove en [''hard_docs'', a] w = (Raise e, w')" |
    (later) w1 where "os_remove en [''hard_docs'', a] w = (Ok (), w1)"
      "remove_each en ns w1 = (Raise e, w')"
    by (auto simp: seq_eq_Raise paths)
  then show ?case
  proof cases
    case here
    then obtain k where "w' = w" "e = (k, Remove [''hard_docs'', a])"
      by (auto dest: os_remove_Raise)
    with Cons.prems(2) have
      "a # ns = [] @ a # ns \<and> e = (k, Remove [''hard_docs'', a]) \<and>
       w' = w\<lparr>fs := AList.update ''hard_docs'' (Dir (filter (\<lambda>p. fst p \<notin> set []) es)) (fs w),
               events := events w @ map (\<lambda>n. Removed [''hard_docs'', n]) []\<rparr>"
      by (simp add: AList.update_triv)
    then show ?thesis by blast
  next
    case later
    from later(1) Cons.prems(2) have
      w1: "w1 = w\<lparr>fs := AList.update ''hard_docs'' (Dir (AList.delete a es)) (fs w),
                   events := events w @ [Removed [''hard_docs'', a]]\<rparr>"
      by (auto simp: os_remove_Ok)
    have m1: "map_of (fs w1) ''hard_docs'' = Some (Dir (AList.delete a es))"
      by (simp add: w1 AList.update_conv')
    from Cons.IH [OF later(2) m1] obtain pre n post k where
      ns: "ns = pre @ n # post" and e: "e = (k, Remove [''hard_docs'', n])" and
      w': "w' = w1\<lparr>fs := AList.update ''hard_docs''
                      (Dir (filter (\<lambda>p. fst p \<notin> set pre) (AList.delete a es))) (fs w1),
                    events := events w1 @ map (\<lambda>n. Removed [''hard_docs'', n]) pre\<rparr>"
      by blast
    have flt: "filter (\<lambda>p. fst p \<notin> set pre) (AList.delete a es) =
               filter (\<lambda>p. fst p \<notin> set (a # pre)) es"
      by (auto simp: delete_filter intro: filter_cong)
    have "a # ns = (a # pre) @ n # post \<and> e = (k, Remove [''hard_docs'', n]) \<and>
       w' = w\<lparr>fs := AList.update ''hard_docs'' (Dir (filter (\<lambda>p. fst p \<notin> set (a # pre)) es)) (fs w),
               events := events w @ map (\<lambda>n. Removed [''hard_docs'', n]) (a # pre)\<rparr>"
      by (simp add: ns e w' w1 flt)
    then show ?thesis by blast
  qed
qed

lemma remove_each_succeeds:
  "map_of (fs w) ''hard_docs'' = Some (Dir es) \<Longrightarrow> distinct ns \<Longrightarrow>
   \<forall>n\<in>set ns. (\<exists>c. map_of es n = Some (File c)) \<and> \<not> denies en (Remove [''hard_docs'', n]) \<Longrightarrow>
   \<exists>w'. remove_each en ns w = (Ok (), w')"
proof (induction ns arbitrary: w es)
  case Nil
  then show ?case by simp
next
  case (Cons a ns)
  from Cons.prems obtain c where c: "map_of es a = Some (File c)"
    and nd: "\<not> denies en (Remove [''hard_docs'', a])" by auto
  define w1 where "w1 = w\<lparr>fs := AList.update ''hard_docs'' (Dir (AList.delete a es)) (fs w),
                   events := events w @ [Removed [''hard_docs'', a]]\<rparr>"
  have a: "os_remove en [''hard_docs'', a] w = (Ok (), w1)"
    using Cons.prems(1) c nd by (simp add: os_remove_Ok w1_def)
  have m1: "map_of (fs w1) ''hard_docs'' = Some (Dir (AList.delete a es))"
    by (simp add: w1_def AList.update_conv')
  have "\<forall>n\<in>set ns. (\<exists>c. map_of (AList.delete a es) n = Some (File c)) \<and>
          \<not> denies en (Remove [''hard_docs'', n])"
  proof
    fix n assume n: "n \<in> set ns"
    with Cons.prems(2) have "n \<noteq> a" by auto
    then have "map_of (AList.delete a es) n = map_of es n" by simp
    with Cons.prems(3) n show "(\<exists>c. map_of (AList.delete a es) n = Some (File c)) \<and>
          \<not> denies en (Remove [''hard_docs'', n])" by simp
  qed
  with Cons.IH [OF m1] Cons.prems(2) obtain w' where "remove_each en ns w1 = (Ok (), w')"
    by auto
  with a show ?case by (simp add: paths)
qed

text \<open>One entry that cannot be removed makes the whole loop raise.\<close>

lemma remove_each_fails:
  "map_of (fs w) ''hard_docs'' = Some (Dir es) \<Longrightarrow> n \<in> set ns \<Longrightarrow>
   map_of es n = Some x \<Longrightarrow> \<not> is_File x \<or> denies en (Remove [''hard_docs'', n]) \<Longrightarrow>
   \<exists>e w'. remove_each en ns w = (Raise e, w')"
proof -
  assume m: "map_of (fs w) ''hard_docs'' = Some (Dir es)" and n: "n \<in> set ns"
    and x: "map_of es n = Some x" and bad: "\<not> is_File x \<or> denies en (Remove [''hard_docs'', n])"
  obtain r w' where rw: "remove_each en ns w = (r, w')" by (cases "remove_each en ns w")
  show ?thesis
  proof (cases r)
    case (Ok u)
    with rw remove_each_Ok [OF _ m] n have
      "(\<exists>c. map_of es n = Some (File c)) \<and> \<not> denies en (Remove [''hard_docs'', n])"
      by blast
    with x bad show ?thesis by auto
  next
    case (Raise e)
    with rw show ?thesis by blast
  qed
qed

subsection \<open>The reset step\<close>

lemma reset_absent:
  "lookup (fs w) dir = None \<Longrightarrow> reset en w = (Ok (), w)"
  by (simp add: reset_def os_path_exists_def)

lemma os_listdir_Ok:
  "os_listdir en p w = (Ok ns, w') \<longleftrightarrow>
     (\<exists>es. lookup (fs w) p = Some (Dir es) \<and> \<not> denies en (Listdir p) \<and> ns = map fst es \<and> w' = w)"
  by (auto simp: os_listdir_def split: option.splits node.splits)

lemma os_listdir_Raise:
  "os_listdir en p w = (Raise e, w') \<Longrightarrow> w' = w \<and> (\<exists>k. e = (k, Listdir p))"
  by (auto simp: os_listdir_def split: option.splits node.splits if_splits)

lemma os_rmdir_Ok:
  "os_rmdir en [d] w = (Ok u, w') \<longleftrightarrow>
     (map_of (fs w) d = Some (Dir []) \<and> \<not> denies en (Rmdir [d]) \<and>
      w' = w\<lparr>fs := AList.delete d (fs w), events := events w @ [RemovedDir [d]]\<rparr>)"
  by (auto simp: os_rmdir_def split: option.splits node.splits list.splits)

lemma os_rmdir_Raise:
  "os_rmdir en p w = (Raise e, w') \<Longrightarrow> w' = w \<and> (\<exists>k. e = (k, Rmdir p))"
  by (auto simp: os_rmdir_def split: option.splits node.splits list.splits if_splits)

lemma filter_all_keys: "filter (\<lambda>p. fst p \<notin> set (map fst es)) es = []"
  by (induction es) auto

lemma all_files:
  "distinct (map fst es) \<Longrightarrow> \<forall>n\<in>set (map fst es). \<exists>c. map_of es n = Some (File c) \<Longrightarrow>
   (n, x) \<in> set es \<Longrightarrow> is_File x"
proof -
  assume d: "distinct (map fst es)" and a: "\<forall>n\<in>set (map fst es). \<exists>c. map_of es n = Some (File c)"
    and m: "(n, x) \<in> set es"
  from d m have "map_of es n = Some x" by simp
  moreover from m have "n \<in> set (map fst es)" by force
  ultimately show "is_File x" using a by fastforce
qed

lemma reset_Ok:
  assumes "reset en w = (Ok u, w')" and "lookup (fs w) dir = Some n"
  shows "\<exists>es. n = Dir es \<and> distinct (map fst es) \<and> (\<forall>(k, x)\<in>set es. is_File x) \<and>
           \<not> denies en (Listdir dir) \<and>
           (\<forall>k\<in>set (map fst es). \<not> denies en (Remove (os_path_join dir k))) \<and>
           \<not> denies en (Rmdir dir) \<and>
           w' = w\<lparr>fs := AList.delete ''hard_docs'' (fs w),
                   events := events w @ map (\<lambda>k. Removed (os_path_join dir k)) (map fst es)
                             @ [RemovedDir dir]\<rparr>"
proof -
  from assms obtain ns w1 w2 where
    l: "os_listdir en dir w = (Ok ns, w1)" and
    r: "remove_each en ns w1 = (Ok (), w2)" and
    d: "os_rmdir en dir w2 = (Ok u, w')"
    by (auto simp: reset_def os_path_exists_def seq_eq_Ok)
  from l assms(2) obtain es where
    n: "n = Dir es" and ns: "ns = map fst es" and w1: "w1 = w" and
    nl: "\<not> denies en (Listdir dir)"
    by (auto simp: os_listdir_Ok)
  from assms(2) n have m: "map_of (fs w) ''hard_docs'' = Some (Dir es)"
    by (simp add: paths)
  note re = remove_each_Ok [OF r [unfolded w1] m]
  from re have w2: "w2 = w\<lparr>fs := AList.update ''hard_docs'' (Dir []) (fs w),
             events := events w @ map (\<lambda>n. Removed [''hard_docs'', n]) ns\<rparr>"
    by (simp add: ns filter_all_keys)
  from re have dist: "distinct (map fst es)" unfolding ns by blast
  from re have fl: "\<forall>k\<in>set (map fst es). \<exists>c. map_of es k = Some (File c)"
    unfolding ns by blast
  from re have nr: "\<forall>k\<in>set (map fst es). \<not> denies en (Remove (os_path_join dir k))"
    unfolding ns paths append.simps by blast
  from d have nd: "\<not> denies en (Rmdir dir)" and
    w': "w' = w2\<lparr>fs := AList.delete ''hard_docs'' (fs w2),
                 events := events w2 @ [RemovedDir [''hard_docs'']]\<rparr>"
    by (auto simp: os_rmdir_Ok paths)
  have "w' = w\<lparr>fs := AList.delete ''hard_docs'' (fs w),
                   events := events w @ map (\<lambda>k. Removed (os_path_join dir k)) (map fst es)
                             @ [RemovedDir dir]\<rparr>"
    by (simp add: w' w2 ns paths AList.delete_update_same)
  moreover have "\<forall>(k, x)\<in>set es. is_File x"
    using all_files [OF dist fl] by auto
  ultimately show ?thesis using n dist nl nr nd by blast
qed

lemma reset_Ok_fs:
  "reset en w = (Ok u, w') \<Longrightarrow>
     fs w' = AList.delete ''hard_docs'' (fs w) \<and> argv w' = argv w \<and> environ w' = environ w \<and>
     (\<exists>evs. events w' = events w @ evs \<and> (\<forall>s. Printed s \<notin> set evs))"
proof (cases "lookup (fs w) dir")
  case None
  assume "reset en w = (Ok u, w')"
  with None reset_absent [OF None, of en] have "w' = w" by simp
  moreover from None have "''hard_docs'' \<notin> fst ` set (fs w)"
    by (simp add: paths map_of_eq_None_iff)
  ultimately show ?thesis by simp
next
  case (Some n)
  assume "reset en w = (Ok u, w')"
  from reset_Ok [OF this Some] show ?thesis by auto
qed

lemma reset_succeeds:
  assumes "lookup (fs w) dir = Some (Dir es)" and "distinct (map fst es)"
    and "\<forall>(k, x)\<in>set es. is_File x"
    and "\<not> denies en (Listdir dir)"
    and "\<forall>k\<in>set (map fst es). \<not> denies en (Remove (os_path_join dir k))"
    and "\<not> denies en (Rmdir dir)"
  shows "\<exists>w'. reset en w = (Ok (), w')"
proof -
  from assms(1) have m: "map_of (fs w) ''hard_docs'' = Some (Dir es)"
    by (simp add: paths)
  have l: "os_listdir en dir w = (Ok (map fst es), w)"
    using assms(1,4) by (simp add: os_listdir_Ok)
  have "\<forall>n\<in>set (map fst es). (\<exists>c. map_of es n = Some (File c)) \<and>
          \<not> denies en (Remove [''hard_docs'', n])"
  proof
    fix n assume n: "n \<in> set (map fst es)"
    then obtain x where x: "(n, x) \<in> set es" by auto
    with assms(3) obtain c where "x = File c" by (cases x) auto
    with x assms(2) have "map_of es n = Some (File c)" by simp
    with assms(5) n show "(\<exists>c. map_of es n = Some (File c)) \<and>
          \<not> denies en (Remove [''hard_docs'', n])" by (auto simp: paths)
  qed
  from remove_each_succeeds [OF m assms(2) this] obtain w2 where
    r: "remove_each en (map fst es) w = (Ok (), w2)" by blast
  from remove_each_Ok [OF r m] have w2: "w2 = w\<lparr>fs := AList.update ''hard_docs'' (Dir []) (fs w),
             events := events w @ map (\<lambda>n. Removed [''hard_docs'', n]) (map fst es)\<rparr>"
    by (simp add: filter_all_keys)
  have "\<exists>w'. os_rmdir en dir w2 = (Ok (), w')"
    using assms(6) by (simp add: os_rmdir_Ok paths w2 AList.update_conv')
  with l r assms(1) show ?thesis
    by (auto simp: reset_def os_path_exists_def)
qed

lemma reset_Raise:
  assumes "reset en w = (Raise e, w')"
  shows "\<exists>n. lookup (fs w) dir = Some n \<and>
           (\<exists>k. e = (k, Listdir dir) \<or> e = (k, Rmdir dir) \<or>
                (\<exists>f. e = (k, Remove (os_path_join dir f)))) \<and>
           argv w' = argv w \<and> environ w' = environ w \<and>
           (\<exists>fs'. events w' = events w @ map (\<lambda>f. Removed (os_path_join dir f)) fs') \<and>
           (fs w' = fs w \<or>
            (\<exists>es es'. n = Dir es \<and> set es' \<subseteq> set es \<and>
               fs w' = AList.update ''hard_docs'' (Dir es') (fs w)))"
proof -
  from assms obtain n where n: "lookup (fs w) dir = Some n"
    by (auto simp: reset_def os_path_exists_def split: if_splits)
  from assms n consider
    (list) "os_listdir en dir w = (Raise e, w')" |
    (remove) ns where "os_listdir en dir w = (Ok ns, w)" "remove_each en ns w = (Raise e, w')" |
    (rmdir) ns w2 where "os_listdir en dir w = (Ok ns, w)" "remove_each en ns w = (Ok (), w2)"
      "os_rmdir en dir w2 = (Raise e, w')"
    by (auto simp: reset_def os_path_exists_def seq_eq_Raise os_listdir_Ok)
  then show ?thesis
  proof cases
    case list
    then have "w' = w \<and> (\<exists>k. e = (k, Listdir dir))" by (rule os_listdir_Raise)
    moreover have "events w = events w @ map (\<lambda>f. Removed (os_path_join dir f)) []" by simp
    ultimately show ?thesis using n by blast
  next
    case remove
    from remove(1) n obtain es where es: "n = Dir es" by (auto simp: os_listdir_Ok)
    with n have m: "map_of (fs w) ''hard_docs'' = Some (Dir es)" by (simp add: paths)
    from remove_each_Raise [OF remove(2) m] obtain pre f post k where
      e: "e = (k, Remove [''hard_docs'', f])" and
      w': "w' = w\<lparr>fs := AList.update ''hard_docs'' (Dir (filter (\<lambda>p. fst p \<notin> set pre) es)) (fs w),
               events := events w @ map (\<lambda>n. Removed [''hard_docs'', n]) pre\<rparr>"
      by blast
    have "set (filter (\<lambda>p. fst p \<notin> set pre) es) \<subseteq> set es" by auto
    moreover from w' have "fs w' = AList.update ''hard_docs'' (Dir (filter (\<lambda>p. fst p \<notin> set pre) es)) (fs w)"
      by simp
    moreover from w' have "events w' = events w @ map (\<lambda>f. Removed (os_path_join dir f)) pre"
      by (simp add: paths)
    moreover from w' have "argv w' = argv w \<and> environ w' = environ w" by simp
    moreover from e have "e = (k, Remove (os_path_join dir f))" by (simp add: paths)
    ultimately show ?thesis using n es by blast
  next
    case rmdir
    from rmdir(1) n obtain es where es: "n = Dir es" by (auto simp: os_listdir_Ok)
    with n have m: "map_of (fs w) ''hard_docs'' = Some (Dir es)" by (simp add: paths)
    from remove_each_Ok [OF rmdir(2) m] have
      w2: "w2 = w\<lparr>fs := AList.update ''hard_docs'' (Dir (filter (\<lambda>p. fst p \<notin> set ns) es)) (fs w),
             events := events w @ map (\<lambda>n. Removed [''hard_docs'', n]) ns\<rparr>"
      by blast
    from rmdir(3) have w': "w' = w2" and e: "\<exists>k. e = (k, Rmdir dir)"
      by (auto dest: os_rmdir_Raise)
    have "set (filter (\<lambda>p. fst p \<notin> set ns) es) \<subseteq> set es" by auto
    moreover from w' w2 have "fs w' = AList.update ''hard_docs'' (Dir (filter (\<lambda>p. fst p \<notin> set ns) es)) (fs w)"
      by simp
    moreover from w' w2 have "events w' = events w @ map (\<lambda>f. Removed (os_path_join dir f)) ns"
      by (simp add: paths)
    moreover from w' w2 have "argv w' = argv w \<and> environ w' = environ w" by simp
    ultimately show ?thesis using n es e by blast
  qed
qed

subsection \<open>Creating the directory and reading the source\<close>

lemma os_mkdir_Ok:
  "os_mkdir en [d] w = (Ok u, w') \<longleftrightarrow>
     (map_of (fs w) d = None \<and> \<not> denies en (Mkdir [d]) \<and>
      w' = w\<lparr>fs := AList.update d (Dir []) (fs w), events := events w @ [MadeDir [d]]\<rparr>)"
  by (auto simp: os_mkdir_def split: option.splits node.splits)

lemma os_mkdir_Raise:
  "os_mkdir en p w = (Raise e, w') \<Longrightarrow> w' = w \<and> (\<exists>k. e = (k, Mkdir p))"
  by (auto simp: os_mkdir_def split: option.splits node.splits if_splits)

lemma open_r_Ok:
  "open_r en p w = (Ok f, w') \<longleftrightarrow>
     ((\<exists>c. lookup (fs w) p = Some (File c)) \<and> \<not> denies en (OpenRead p) \<and> f = p \<and> w' = w)"
  by (auto simp: open_r_def split: option.splits node.splits)

lemma open_r_Raise:
  "open_r en p w = (Raise e, w') \<Longrightarrow> w' = w \<and> (\<exists>k. e = (k, OpenRead p))"
  by (auto simp: open_r_def split: option.splits node.splits if_splits)

lemma f_read_Ok:
  "f_read en f w = (Ok c, w') \<longleftrightarrow>
     (\<exists>bs. lookup (fs w) f = Some (File bs) \<and> \<not> denies en (Read f) \<and>
           decodable (encoding en (environ w)) bs \<and> c = universal_newlines bs \<and> w' = w)"
  by (auto simp: f_read_def split: option.splits node.splits)

lemma f_read_Raise:
  "f_read en f w = (Raise e, w') \<Longrightarrow> w' = w \<and> (\<exists>k. e = (k, Read f))"
  by (auto simp: f_read_def split: option.splits node.splits if_splits)

subsection \<open>Writing one file\<close>

lemma open_w_Ok:
  "open_w en [d, n] w = (Ok f, w') \<longleftrightarrow>
     (\<exists>es. map_of (fs w) d = Some (Dir es) \<and> (\<forall>sub. map_of es n \<noteq> Some (Dir sub)) \<and>
        \<not> denies en (OpenWrite [d, n]) \<and> f = [d, n] \<and>
        w' = w\<lparr>fs := AList.update d (Dir (AList.update n (File []) es)) (fs w),
                events := events w @ [Opened [d, n]]\<rparr>)"
  by (auto simp: open_w_def split: option.splits node.splits)

lemma open_w_Raise:
  "open_w en p w = (Raise e, w') \<Longrightarrow> w' = w \<and> (\<exists>k. e = (k, OpenWrite p))"
  by (auto simp: open_w_def split: option.splits node.splits if_splits)

lemma f_write_Ok:
  "f_write en f s w = (Ok u, w') \<longleftrightarrow>
     (\<not> denies en (Write f) \<and>
      w' = w\<lparr>fs := store (fs w) f (File s), events := events w @ [Wrote f s]\<rparr>)"
  by (auto simp: f_write_def)

lemma f_write_Raise:
  "f_write en f s w = (Raise e, w') \<longleftrightarrow>
     (denies en (Write f) \<and> e = (OSError, Write f) \<and>
      w' = w\<lparr>fs := store (fs w) f (File (take (flushed en f) s)),
              events := events w @ [Wrote f (take (flushed en f) s)]\<rparr>)"
  by (auto simp: f_write_def)

subsection \<open>Decimal numerals name distinct files\<close>

lemma digit_char_inj: "a < 10 \<Longrightarrow> b < 10 \<Longrightarrow> digit_char a = digit_char b \<Longrightarrow> a = b"
proof -
  assume a: "a < 10" and b: "b < 10" and eq: "digit_char a = digit_char b"
  from eq have "of_char (char_of (48 + a) :: char) = (of_char (char_of (48 + b) :: char) :: nat)"
    by (simp add: digit_char_def)
  with a b show "a = b" by (simp add: of_char_of)
qed

lemma str_nonempty: "str n \<noteq> []"
  by (subst str.simps) simp

lemma str_length_ge2: "10 \<le> n \<Longrightarrow> 2 \<le> length (str n)"
proof -
  assume "10 \<le> n"
  then have "str n = str (n div 10) @ [digit_char (n mod 10)]"
    by (subst str.simps) simp
  moreover have "1 \<le> length (str (n div 10))"
    using str_nonempty [of "n div 10"] by (cases "str (n div 10)") auto
  ultimately show ?thesis by simp
qed

lemma str_inj: "str m = str n \<Longrightarrow> m = n"
proof (induction m arbitrary: n rule: str.induct)
  case (1 m)
  show ?case
  proof (cases "m < 10")
    case True
    then have sm: "str m = [digit_char m]" by (subst str.simps) simp
    show ?thesis
    proof (cases "n < 10")
      case n: True
      then have "str n = [digit_char n]" by (subst str.simps) simp
      with sm "1.prems" True n show ?thesis by (auto dest: digit_char_inj)
    next
      case False
      then have "2 \<le> length (str n)" by (simp add: str_length_ge2)
      with sm "1.prems" show ?thesis by simp
    qed
  next
    case False
    then have sm: "str m = str (m div 10) @ [digit_char (m mod 10)]"
      by (subst str.simps) simp
    show ?thesis
    proof (cases "n < 10")
      case True
      then have "str n = [digit_char n]" by (subst str.simps) simp
      moreover from False have "2 \<le> length (str m)" by (simp add: str_length_ge2)
      ultimately show ?thesis using "1.prems" by simp
    next
      case n: False
      then have sn: "str n = str (n div 10) @ [digit_char (n mod 10)]"
        by (subst str.simps) simp
      from sm sn "1.prems" have q: "str (m div 10) = str (n div 10)"
        and d: "digit_char (m mod 10) = digit_char (n mod 10)" by auto
      from "1.IH" [OF False q] have "m div 10 = n div 10" .
      moreover have "m mod 10 = n mod 10"
        by (rule digit_char_inj [OF _ _ d]) simp_all
      ultimately show ?thesis by (metis div_mult_mod_eq)
    qed
  qed
qed

lemma file_name_inj: "file_name i = file_name j \<Longrightarrow> i = j"
  by (auto simp: file_name_def dest: str_inj)

lemma distinct_file_names: "distinct is \<Longrightarrow> distinct (map file_name is)"
  by (simp add: distinct_map inj_on_def file_name_inj)

lemma update_fresh: "k \<notin> fst ` set es \<Longrightarrow> AList.update k v es = es @ [(k, v)]"
  by (induction es) auto

subsection \<open>The generation loop\<close>

lemma write_one:
  assumes m: "map_of (fs w) ''hard_docs'' = Some (Dir cur)"
    and fresh: "file_name i \<notin> fst ` set cur"
    and o: "open_w en (os_path_join dir (file_name i)) w = (Ok f, w1)"
  shows "f = os_path_join dir (file_name i)"
    and "\<not> denies en (OpenWrite (os_path_join dir (file_name i)))"
    and "w1 = w\<lparr>fs := AList.update ''hard_docs'' (Dir (cur @ [(file_name i, File [])])) (fs w),
                events := events w @ [Opened (os_path_join dir (file_name i))]\<rparr>"
    and "store (fs w1) f (File s) =
           AList.update ''hard_docs'' (Dir (cur @ [(file_name i, File s)])) (fs w)"
proof -
  have fr: "AList.update (file_name i) (File t) cur = cur @ [(file_name i, File t)]" for t
    using fresh by (rule update_fresh)
  from o m have f: "f = [''hard_docs'', file_name i]"
    and nd: "\<not> denies en (OpenWrite [''hard_docs'', file_name i])"
    and w1: "w1 = w\<lparr>fs := AList.update ''hard_docs'' (Dir (AList.update (file_name i) (File []) cur)) (fs w),
                events := events w @ [Opened [''hard_docs'', file_name i]]\<rparr>"
    by (auto simp: open_w_Ok paths)
  from f show "f = os_path_join dir (file_name i)" by (simp add: paths)
  from nd show "\<not> denies en (OpenWrite (os_path_join dir (file_name i)))" by (simp add: paths)
  from w1 show "w1 = w\<lparr>fs := AList.update ''hard_docs'' (Dir (cur @ [(file_name i, File [])])) (fs w),
                events := events w @ [Opened (os_path_join dir (file_name i))]\<rparr>"
    by (simp add: paths fr)
  have "AList.update (file_name i) (File s) (AList.update (file_name i) (File []) cur) =
        cur @ [(file_name i, File s)]"
    unfolding AList.update_last by (rule fr)
  then show "store (fs w1) f (File s) =
               AList.update ''hard_docs'' (Dir (cur @ [(file_name i, File s)])) (fs w)"
    by (simp add: f w1 AList.update_conv')
qed

lemma generate_Ok:
  "generate en C is w = (Ok u, w') \<Longrightarrow> map_of (fs w) ''hard_docs'' = Some (Dir cur) \<Longrightarrow>
   distinct is \<Longrightarrow> file_name ` set is \<inter> fst ` set cur = {} \<Longrightarrow>
     w' = w\<lparr>fs := AList.update ''hard_docs'' (Dir (cur @ expected C is)) (fs w),
             events := events w @ written C is\<rparr> \<and>
     (\<forall>i\<in>set is. \<not> denies en (OpenWrite (os_path_join dir (file_name i))) \<and>
                  \<not> denies en (Write (os_path_join dir (file_name i))))"
proof (induction "is" arbitrary: w cur)
  case Nil
  then show ?case by (simp add: expected_def written_def AList.update_triv)
next
  case (Cons i rest)
  from Cons.prems(1) obtain f w1 w2 where
    o: "open_w en (os_path_join dir (file_name i)) w = (Ok f, w1)" and
    wr: "f_write en f (file_content C i) w1 = (Ok (), w2)" and
    g: "generate en C rest w2 = (Ok u, w')"
    by (auto simp: seq_eq_Ok)
  from Cons.prems(4) have fresh: "file_name i \<notin> fst ` set cur" by auto
  note one = write_one [OF Cons.prems(2) fresh o]
  from wr have ndw: "\<not> denies en (Write f)" and
    w2: "w2 = w1\<lparr>fs := store (fs w1) f (File (file_content C i)),
                 events := events w1 @ [Wrote f (file_content C i)]\<rparr>"
    by (auto simp: f_write_Ok)
  let ?cur = "cur @ [(file_name i, File (file_content C i))]"
  have w2': "w2 = w\<lparr>fs := AList.update ''hard_docs'' (Dir ?cur) (fs w),
                    events := events w @ written C [i]\<rparr>"
    unfolding w2 one(4) by (simp add: one(1,3) written_def)
  have fs2: "fs w2 = AList.update ''hard_docs'' (Dir ?cur) (fs w)"
    by (simp add: w2')
  have m2: "map_of (fs w2) ''hard_docs'' = Some (Dir ?cur)"
    by (simp add: fs2 AList.update_conv')
  from Cons.prems(3) have d: "distinct rest" and ni: "i \<notin> set rest" by auto
  have fr: "file_name ` set rest \<inter> fst ` set ?cur = {}"
    using Cons.prems(4) ni by (auto dest: file_name_inj)
  note ih = Cons.IH [OF g m2 d fr]
  from ih have "w' = w2\<lparr>fs := AList.update ''hard_docs'' (Dir (?cur @ expected C rest)) (fs w2),
             events := events w2 @ written C rest\<rparr>" by blast
  then have "w' = w\<lparr>fs := AList.update ''hard_docs'' (Dir (cur @ expected C (i # rest))) (fs w),
             events := events w @ written C (i # rest)\<rparr>"
    by (simp add: w2' expected_def written_def)
  moreover have "\<not> denies en (OpenWrite (os_path_join dir (file_name i)))" by (rule one(2))
  moreover from ndw have "\<not> denies en (Write (os_path_join dir (file_name i)))"
    by (simp add: one(1))
  ultimately show ?case using ih by simp
qed

lemma generate_Raise:
  "generate en C is w = (Raise e, w') \<Longrightarrow> map_of (fs w) ''hard_docs'' = Some (Dir cur) \<Longrightarrow>
   distinct is \<Longrightarrow> file_name ` set is \<inter> fst ` set cur = {} \<Longrightarrow>
     \<exists>pre i post. is = pre @ i # post \<and>
       ((e = (OSError, OpenWrite (os_path_join dir (file_name i))) \<and>
         denies en (OpenWrite (os_path_join dir (file_name i))) \<and>
         w' = w\<lparr>fs := AList.update ''hard_docs'' (Dir (cur @ expected C pre)) (fs w),
                 events := events w @ written C pre\<rparr>) \<or>
        (e = (OSError, Write (os_path_join dir (file_name i))) \<and>
         denies en (Write (os_path_join dir (file_name i))) \<and>
         w' = w\<lparr>fs := AList.update ''hard_docs''
                    (Dir (cur @ expected C pre @
                       [(file_name i, File (take (flushed en (os_path_join dir (file_name i)))
                                                 (file_content C i)))])) (fs w),
                 events := events w @ written C pre @
                    [Opened (os_path_join dir (file_name i)),
                     Wrote (os_path_join dir (file_name i))
                       (take (flushed en (os_path_join dir (file_name i))) (file_content C i))]\<rparr>))"
proof (induction "is" arbitrary: w cur)
  case Nil
  then show ?case by simp
next
  case (Cons i rest)
  let ?p = "os_path_join dir (file_name i)"
  from Cons.prems(4) have fresh: "file_name i \<notin> fst ` set cur" by auto
  from Cons.prems(1) consider
    (at_open) "open_w en ?p w = (Raise e, w')" |
    (at_write) f w1 where "open_w en ?p w = (Ok f, w1)"
      "f_write en f (file_content C i) w1 = (Raise e, w')" |
    (later) f w1 w2 where "open_w en ?p w = (Ok f, w1)"
      "f_write en f (file_content C i) w1 = (Ok (), w2)"
      "generate en C rest w2 = (Raise e, w')"
    by (auto simp: seq_eq_Raise)
  then show ?case
  proof cases
    case at_open
    from Cons.prems(2) fresh have "lookup (fs w) ?p = None"
      by (simp add: paths map_of_eq_None_iff)
    with at_open Cons.prems(2) have "e = (OSError, OpenWrite ?p)" and "w' = w"
      and "denies en (OpenWrite ?p)"
      by (auto simp: open_w_def paths split: if_splits)
    with Cons.prems(2) have "i # rest = [] @ i # rest \<and> e = (OSError, OpenWrite ?p) \<and>
         denies en (OpenWrite ?p) \<and>
         w' = w\<lparr>fs := AList.update ''hard_docs'' (Dir (cur @ expected C [])) (fs w),
                 events := events w @ written C []\<rparr>"
      by (simp add: expected_def written_def AList.update_triv)
    then show ?thesis by blast
  next
    case at_write
    note one = write_one [OF Cons.prems(2) fresh at_write(1)]
    from at_write(2) have e: "e = (OSError, Write f)" and dn: "denies en (Write f)" and
      w': "w' = w1\<lparr>fs := store (fs w1) f (File (take (flushed en f) (file_content C i))),
              events := events w1 @ [Wrote f (take (flushed en f) (file_content C i))]\<rparr>"
      by (auto simp: f_write_Raise)
    have "w' = w\<lparr>fs := AList.update ''hard_docs''
                    (Dir (cur @ expected C [] @
                       [(file_name i, File (take (flushed en ?p) (file_content C i)))])) (fs w),
                 events := events w @ written C [] @
                    [Opened ?p, Wrote ?p (take (flushed en ?p) (file_content C i))]\<rparr>"
      unfolding w' one(4) by (simp add: one(1,3) expected_def written_def)
    with e dn one(1) have "i # rest = [] @ i # rest \<and> e = (OSError, Write ?p) \<and>
         denies en (Write ?p) \<and>
         w' = w\<lparr>fs := AList.update ''hard_docs''
                    (Dir (cur @ expected C [] @
                       [(file_name i, File (take (flushed en ?p) (file_content C i)))])) (fs w),
                 events := events w @ written C [] @
                    [Opened ?p, Wrote ?p (take (flushed en ?p) (file_content C i))]\<rparr>"
      by simp
    then show ?thesis by blast
  next
    case later
    note one = write_one [OF Cons.prems(2) fresh later(1)]
    from later(2) have
      w2: "w2 = w1\<lparr>fs := store (fs w1) f (File (file_content C i)),
                   events := events w1 @ [Wrote f (file_content C i)]\<rparr>"
      by (auto simp: f_write_Ok)
    let ?cur = "cur @ [(file_name i, File (file_content C i))]"
    have w2': "w2 = w\<lparr>fs := AList.update ''hard_docs'' (Dir ?cur) (fs w),
                      events := events w @ written C [i]\<rparr>"
      unfolding w2 one(4) by (simp add: one(1,3) written_def)
    have m2: "map_of (fs w2) ''hard_docs'' = Some (Dir ?cur)"
      by (simp add: w2' AList.update_conv')
    from Cons.prems(3) have d: "distinct rest" and ni: "i \<notin> set rest" by auto
    have fr: "file_name ` set rest \<inter> fst ` set ?cur = {}"
      using Cons.prems(4) ni by (auto dest: file_name_inj)
    from Cons.IH [OF later(3) m2 d fr] obtain pre j post where
      rest: "rest = pre @ j # post" and
      alt: "(e = (OSError, OpenWrite (os_path_join dir (file_name j))) \<and>
         denies en (OpenWrite (os_path_join dir (file_name j))) \<and>
         w' = w2\<lparr>fs := AList.update ''hard_docs'' (Dir (?cur @ expected C pre)) (fs w2),
                 events := events w2 @ written C pre\<rparr>) \<or>
        (e = (OSError, Write (os_path_join dir (file_name j))) \<and>
         denies en (Write (os_path_join dir (file_name j))) \<and>
         w' = w2\<lparr>fs := AList.update ''hard_docs''
                    (Dir (?cur @ expected C pre @
                       [(file_name j, File (take (flushed en (os_path_join dir (file_name j)))
                                                 (file_content C j)))])) (fs w2),
                 events := events w2 @ written C pre @
                    [Opened (os_path_join dir (file_name j)),
                     Wrote (os_path_join dir (file_name j))
                       (take (flushed en (os_path_join dir (file_name j))) (file_content C j))]\<rparr>)"
      by blast
    have "i # rest = (i # pre) @ j # post" by (simp add: rest)
    moreover from alt have
      "(e = (OSError, OpenWrite (os_path_join dir (file_name j))) \<and>
         denies en (OpenWrite (os_path_join dir (file_name j))) \<and>
         w' = w\<lparr>fs := AList.update ''hard_docs'' (Dir (cur @ expected C (i # pre))) (fs w),
                 events := events w @ written C (i # pre)\<rparr>) \<or>
        (e = (OSError, Write (os_path_join dir (file_name j))) \<and>
         denies en (Write (os_path_join dir (file_name j))) \<and>
         w' = w\<lparr>fs := AList.update ''hard_docs''
                    (Dir (cur @ expected C (i # pre) @
                       [(file_name j, File (take (flushed en (os_path_join dir (file_name j)))
                                                 (file_content C j)))])) (fs w),
                 events := events w @ written C (i # pre) @
                    [Opened (os_path_join dir (file_name j)),
                     Wrote (os_path_join dir (file_name j))
                       (take (flushed en (os_path_join dir (file_name j))) (file_content C j))]\<rparr>)"
      by (auto simp: w2' expected_def written_def)
    ultimately show ?thesis by blast
  qed
qed

lemma generate_succeeds:
  "map_of (fs w) ''hard_docs'' = Some (Dir cur) \<Longrightarrow>
   distinct is \<Longrightarrow> file_name ` set is \<inter> fst ` set cur = {} \<Longrightarrow>
   \<forall>i\<in>set is. \<not> denies en (OpenWrite (os_path_join dir (file_name i))) \<and>
                \<not> denies en (Write (os_path_join dir (file_name i))) \<Longrightarrow>
   \<exists>w'. generate en C is w = (Ok (), w')"
proof -
  assume m: "map_of (fs w) ''hard_docs'' = Some (Dir cur)" and d: "distinct is"
    and f: "file_name ` set is \<inter> fst ` set cur = {}"
    and nd: "\<forall>i\<in>set is. \<not> denies en (OpenWrite (os_path_join dir (file_name i))) \<and>
                \<not> denies en (Write (os_path_join dir (file_name i)))"
  obtain r w' where rw: "generate en C is w = (r, w')" by (cases "generate en C is w")
  show ?thesis
  proof (cases r)
    case (Ok u)
    with rw show ?thesis by simp
  next
    case (Raise e)
    with rw generate_Raise [OF _ m d f] obtain pre i post where
      "is = pre @ i # post" and
      "denies en (OpenWrite (os_path_join dir (file_name i))) \<or>
       denies en (Write (os_path_join dir (file_name i)))"
      by blast
    with nd show ?thesis by auto
  qed
qed

lemma generate_append:
  "generate en C (xs @ ys) w = seq (generate en C xs w) (\<lambda>_. generate en C ys)"
proof (induction xs arbitrary: w)
  case Nil
  then show ?case by simp
next
  case (Cons i xs)
  show ?case
    by (cases "open_w en (os_path_join dir (file_name i)) w")
       (auto simp: seq_def Cons split: result.splits prod.splits)
qed

section \<open>The whole run\<close>

text \<open>The world in which the source document is opened: the directory is there and empty.\<close>

lemma mkdir_after_reset:
  assumes "reset en w = (Ok u, w1)" and "os_mkdir en dir w1 = (Ok v, w2)"
  shows "w2 = w\<lparr>fs := AList.delete ''hard_docs'' (fs w) @ [(''hard_docs'', Dir [])],
                 events := events w1 @ [MadeDir dir]\<rparr>"
proof -
  from reset_Ok_fs [OF assms(1)] have f1: "fs w1 = AList.delete ''hard_docs'' (fs w)"
    and a1: "argv w1 = argv w" "environ w1 = environ w" by auto
  have "''hard_docs'' \<notin> fst ` set (AList.delete ''hard_docs'' (fs w))"
    by (rule AList.delete_notin_dom)
  then have "AList.update ''hard_docs'' (Dir []) (fs w1) =
             AList.delete ''hard_docs'' (fs w) @ [(''hard_docs'', Dir [])]"
    unfolding f1 by (rule update_fresh)
  moreover from assms(2) have
    "w2 = w1\<lparr>fs := AList.update ''hard_docs'' (Dir []) (fs w1),
              events := events w1 @ [MadeDir dir]\<rparr>"
    by (simp add: os_mkdir_Ok paths)
  ultimately show ?thesis using a1 by simp
qed

lemma lookup_after_mkdir:
  "lookup (AList.delete ''hard_docs'' es @ [(''hard_docs'', n)]) docs_path = lookup es docs_path"
  "lookup (AList.delete ''hard_docs'' es @ [(''hard_docs'', n)]) dir = Some n"
  "map_of (AList.delete ''hard_docs'' es @ [(''hard_docs'', n)]) ''hard_docs'' = Some n"
  by (simp_all add: paths map_add_def AList.delete_conv' split: option.splits)

lemma update_after_mkdir:
  "AList.update ''hard_docs'' n' (AList.delete ''hard_docs'' es @ [(''hard_docs'', n)]) =
   AList.delete ''hard_docs'' es @ [(''hard_docs'', n')]"
proof -
  have "''hard_docs'' \<notin> fst ` set (AList.delete ''hard_docs'' es)"
    by (rule AList.delete_notin_dom)
  then have "AList.update ''hard_docs'' n' (AList.delete ''hard_docs'' es @ [(''hard_docs'', n)]) =
    AList.update ''hard_docs'' n' (AList.update ''hard_docs'' n (AList.delete ''hard_docs'' es))"
    by (simp add: update_fresh)
  also have "\<dots> = AList.update ''hard_docs'' n' (AList.delete ''hard_docs'' es)"
    by (rule AList.update_last)
  also have "\<dots> = AList.delete ''hard_docs'' es @ [(''hard_docs'', n')]"
    by (rule update_fresh) (rule AList.delete_notin_dom)
  finally show ?thesis .
qed

lemma distinct_range: "distinct (py_range n)" "set (py_range n) = {0..<n}"
  by (simp_all add: py_range_def)

lemma main_cases:
  assumes "main en w = (r, w')"
  obtains
    (at_reset) e where "reset en w = (Raise e, w')" "r = Raise e"
  | (at_mkdir) w1 k where "reset en w = (Ok (), w1)" "r = Raise (k, Mkdir dir)" "w' = w1"
      "denies en (Mkdir dir)"
  | (at_source) w1 k where "reset en w = (Ok (), w1)"
      "r = Raise (k, OpenRead docs_path) \<or> r = Raise (k, Read docs_path)"
      "w' = w\<lparr>fs := AList.delete ''hard_docs'' (fs w) @ [(''hard_docs'', Dir [])],
               events := events w1 @ [MadeDir dir]\<rparr>"
      "\<not> denies en (Mkdir dir)"
  | (at_generate) w1 C e where "reset en w = (Ok (), w1)"
      "\<exists>bs. lookup (fs w) docs_path = Some (File bs) \<and>
            decodable (encoding en (environ w)) bs \<and> C = universal_newlines bs"
      "generate en C (py_range 51)
         (w\<lparr>fs := AList.delete ''hard_docs'' (fs w) @ [(''hard_docs'', Dir [])],
            events := events w1 @ [MadeDir dir]\<rparr>) = (Raise e, w')"
      "r = Raise e"
  | (finished) w1 C where "reset en w = (Ok (), w1)"
      "\<exists>bs. lookup (fs w) docs_path = Some (File bs) \<and>
            decodable (encoding en (environ w)) bs \<and> C = universal_newlines bs"
      "\<not> denies en (Mkdir dir)" "\<not> denies en (OpenRead docs_path)"
      "\<not> denies en (Read docs_path)"
      "\<forall>i<51. \<not> denies en (OpenWrite (os_path_join dir (file_name i))) \<and>
                \<not> denies en (Write (os_path_join dir (file_name i)))"
      "w' = w\<lparr>fs := AList.delete ''hard_docs'' (fs w) @
                       [(''hard_docs'', Dir (expected C (py_range 51)))],
               events := events w1 @ [MadeDir dir] @ written C (py_range 51) @
                         [Printed ''Files created successfully.'']\<rparr>"
      "r = Ok ()"
proof -
  obtain r1 w1 where r1: "reset en w = (r1, w1)" by (cases "reset en w")
  show thesis
  proof (cases r1)
    case (Raise e)
    with r1 assms have "reset en w = (Raise e, w')" "r = Raise e"
      by (auto simp: main_def)
    then show thesis by (rule at_reset)
  next
    case (Ok u)
    with r1 have reset: "reset en w = (Ok (), w1)" by simp
    obtain r2 w2 where r2: "os_mkdir en dir w1 = (r2, w2)" by (cases "os_mkdir en dir w1")
    show thesis
    proof (cases r2)
      case (Raise e)
      with r2 have "w2 = w1 \<and> (\<exists>k. e = (k, Mkdir dir))" by (auto dest: os_mkdir_Raise)
      with r2 Raise reset assms obtain k where rk: "r = Raise (k, Mkdir dir)" and ww: "w' = w1"
        by (auto simp: main_def)
      from reset_Ok_fs [OF reset] have "lookup (fs w1) dir = None"
        by (simp add: paths AList.delete_conv')
      with r2 Raise have dn: "denies en (Mkdir dir)"
        by (auto simp: os_mkdir_def paths split: if_splits)
      from reset rk ww dn show thesis by (rule at_mkdir)
    next
      case Ok2: (Ok u2)
      with r2 have mk: "os_mkdir en dir w1 = (Ok (), w2)" by simp
      note w2 = mkdir_after_reset [OF reset mk]
      from mk have ndm: "\<not> denies en (Mkdir dir)" by (simp add: os_mkdir_Ok paths)
      have l2: "lookup (fs w2) docs_path = lookup (fs w) docs_path"
        by (simp add: w2 lookup_after_mkdir)
      from assms reset mk have rest:
        "seq (open_r en docs_path w2) (\<lambda>f w3.
         seq (f_read en f w3) (\<lambda>docs_content w4.
         seq (generate en docs_content (py_range 51) w4) (\<lambda>_ w5.
         print ''Files created successfully.'' w5))) = (r, w')"
        by (simp add: main_def)
      obtain r3 w3 where r3: "open_r en docs_path w2 = (r3, w3)"
        by (cases "open_r en docs_path w2")
      show thesis
      proof (cases r3)
        case (Raise e)
        with r3 have "w3 = w2" and "\<exists>k. e = (k, OpenRead docs_path)"
          by (auto dest: open_r_Raise)
        with r3 Raise rest obtain k where "r = Raise (k, OpenRead docs_path)" "w' = w2"
          by auto
        with reset w2 ndm show thesis by (intro at_source [of w1 k]) auto
      next
        case Ok3: (Ok f)
        with r3 l2 obtain C0 where f: "f = docs_path" and w3: "w3 = w2"
          and ndo: "\<not> denies en (OpenRead docs_path)"
          and C0: "lookup (fs w) docs_path = Some (File C0)"
          by (auto simp: open_r_Ok)
        obtain r4 w4 where r4: "f_read en docs_path w2 = (r4, w4)"
          by (cases "f_read en docs_path w2")
        show thesis
        proof (cases r4)
          case (Raise e)
          with r4 have "w4 = w2" and "\<exists>k. e = (k, Read docs_path)"
            by (auto dest: f_read_Raise)
          with r3 Ok3 f w3 r4 Raise rest obtain k where
            "r = Raise (k, Read docs_path)" "w' = w2"
            by auto
          with reset w2 ndm show thesis by (intro at_source [of w1 k]) auto
        next
          case Ok4: (Ok C)
          have e2: "environ w2 = environ w" by (simp add: w2)
          from Ok4 r4 l2 e2 have C: "\<exists>bs. lookup (fs w) docs_path = Some (File bs) \<and>
            decodable (encoding en (environ w)) bs \<and> C = universal_newlines bs"
            and w4: "w4 = w2" and ndr: "\<not> denies en (Read docs_path)"
            by (auto simp: f_read_Ok)
          from r3 Ok3 f w3 r4 Ok4 w4 rest have gen:
            "seq (generate en C (py_range 51) w2) (\<lambda>_ w5.
               print ''Files created successfully.'' w5) = (r, w')"
            by simp
          obtain r5 w5 where r5: "generate en C (py_range 51) w2 = (r5, w5)"
            by (cases "generate en C (py_range 51) w2")
          have m2: "map_of (fs w2) ''hard_docs'' = Some (Dir [])"
            unfolding w2 by (simp del: map_of_append add: lookup_after_mkdir)
          show thesis
          proof (cases r5)
            case (Raise e)
            with r5 gen have "generate en C (py_range 51) w2 = (Raise e, w')" "r = Raise e"
              by auto
            with reset C show thesis unfolding w2 by (intro at_generate [of w1 C e]) auto
          next
            case Ok5: (Ok u5)
            with r5 have g: "generate en C (py_range 51) w2 = (Ok (), w5)" by simp
            from generate_Ok [OF g m2 distinct_range(1)] have
              w5: "w5 = w2\<lparr>fs := AList.update ''hard_docs'' (Dir (expected C (py_range 51))) (fs w2),
                           events := events w2 @ written C (py_range 51)\<rparr>"
              and ndw: "\<forall>i\<in>set (py_range 51).
                  \<not> denies en (OpenWrite (os_path_join dir (file_name i))) \<and>
                  \<not> denies en (Write (os_path_join dir (file_name i)))"
              by auto
            from g gen have "r = Ok ()" and
              "w' = w5\<lparr>events := events w5 @ [Printed ''Files created successfully.'']\<rparr>"
              by (auto simp: print_def)
            then have "w' = w\<lparr>fs := AList.delete ''hard_docs'' (fs w) @
                       [(''hard_docs'', Dir (expected C (py_range 51)))],
               events := events w1 @ [MadeDir dir] @ written C (py_range 51) @
                         [Printed ''Files created successfully.'']\<rparr>"
              by (simp add: w5 w2 update_after_mkdir)
            moreover from ndw have "\<forall>i<51. \<not> denies en (OpenWrite (os_path_join dir (file_name i))) \<and>
                \<not> denies en (Write (os_path_join dir (file_name i)))"
              by (simp add: py_range_def)
            ultimately show thesis using reset C ndm ndo ndr \<open>r = Ok ()\<close>
              by (intro finished [of w1 C]) auto
          qed
        qed
      qed
    qed
  qed
qed

lemma main_succeeds:
  assumes nd: "\<forall>c. \<not> denies en c"
    and src: "lookup (fs w) docs_path = Some (File bs)"
    and dec: "decodable (encoding en (environ w)) bs"
    and out: "lookup (fs w) dir = None \<or>
              (\<exists>es. lookup (fs w) dir = Some (Dir es) \<and> distinct (map fst es) \<and>
                    (\<forall>(k, x)\<in>set es. is_File x))"
  shows "main en w =
           (Ok (), w\<lparr>fs := AList.delete ''hard_docs'' (fs w) @
                            [(''hard_docs'', Dir (expected (universal_newlines bs) (py_range 51)))],
                     events := events (snd (reset en w)) @ [MadeDir dir] @
                               written (universal_newlines bs) (py_range 51) @
                               [Printed ''Files created successfully.'']\<rparr>)"
proof -
  define C where "C = universal_newlines bs"
  from out obtain w1 where reset: "reset en w = (Ok (), w1)"
  proof
    assume "lookup (fs w) dir = None"
    then have "reset en w = (Ok (), w)" by (rule reset_absent)
    then show thesis by (rule that)
  next
    assume "\<exists>es. lookup (fs w) dir = Some (Dir es) \<and> distinct (map fst es) \<and>
                    (\<forall>(k, x)\<in>set es. is_File x)"
    then obtain es where "lookup (fs w) dir = Some (Dir es)" "distinct (map fst es)"
      "\<forall>(k, x)\<in>set es. is_File x" by blast
    from reset_succeeds [OF this] nd obtain w1 where "reset en w = (Ok (), w1)" by blast
    then show thesis by (rule that)
  qed
  from reset_Ok_fs [OF reset] have f1: "fs w1 = AList.delete ''hard_docs'' (fs w)" by simp
  have "map_of (fs w1) ''hard_docs'' = None"
    unfolding f1 by (simp add: AList.delete_conv')
  with nd obtain w2 where mk: "os_mkdir en dir w1 = (Ok (), w2)"
    by (simp add: os_mkdir_Ok paths)
  note w2 = mkdir_after_reset [OF reset mk]
  have l2: "lookup (fs w2) docs_path = Some (File bs)"
    by (simp add: w2 lookup_after_mkdir src)
  with nd have o: "open_r en docs_path w2 = (Ok docs_path, w2)"
    by (simp add: open_r_Ok)
  have "environ w2 = environ w" by (simp add: w2)
  with l2 nd dec have rd: "f_read en docs_path w2 = (Ok C, w2)"
    by (simp add: f_read_Ok C_def)
  have m2: "map_of (fs w2) ''hard_docs'' = Some (Dir [])"
    unfolding w2 by (simp del: map_of_append add: lookup_after_mkdir)
  have "\<exists>w5. generate en C (py_range 51) w2 = (Ok (), w5)"
    by (rule generate_succeeds [OF m2 distinct_range(1)]) (use nd in auto)
  then obtain w5 where g: "generate en C (py_range 51) w2 = (Ok (), w5)" ..
  have main: "main en w = (Ok (), w5\<lparr>events := events w5 @ [Printed ''Files created successfully.'']\<rparr>)"
    by (simp add: main_def reset mk o rd g print_def)
  from generate_Ok [OF g m2 distinct_range(1)] have
    w5: "w5 = w2\<lparr>fs := AList.update ''hard_docs'' (Dir (expected C (py_range 51))) (fs w2),
                           events := events w2 @ written C (py_range 51)\<rparr>"
    by auto
  show ?thesis
    unfolding main by (simp add: w5 w2 update_after_mkdir reset C_def)
qed

text \<open>After a complete run a second one finds only plain files to remove.\<close>

lemma expected_files:
  "distinct is \<Longrightarrow> distinct (map fst (expected C is))"
  "\<forall>(k, x)\<in>set (expected C is). is_File x"
  "map fst (expected C is) = map file_name is"
  by (auto simp: expected_def comp_def distinct_map inj_on_def dest: file_name_inj)


lemma hello_world_text:
  "universal_newlines hello_world = hello_world"
  "decodable UTF_8 hello_world"
  by (simp_all add: hello_world_def)

lemma quiet_stdout: "\<forall>s. Printed s \<notin> set evs \<Longrightarrow> concat (map printed evs) = []"
proof (induction evs)
  case Nil
  then show ?case by simp
next
  case (Cons e evs)
  then show ?case by (cases e) auto
qed

lemma written_quiet: "Printed s \<notin> set (written C is)"
  by (auto simp: written_def)

lemma main_Ok:
  assumes "main en w = (Ok u, w')"
  shows "\<exists>C evs. (\<exists>bs. lookup (fs w) docs_path = Some (File bs) \<and>
                   decodable (encoding en (environ w)) bs \<and> C = universal_newlines bs) \<and>
           fs w' = AList.delete ''hard_docs'' (fs w) @
                     [(''hard_docs'', Dir (expected C (py_range 51)))] \<and>
           (\<forall>s. Printed s \<notin> set evs) \<and>
           events w' = events w @ (evs @ written C (py_range 51)) @
                       [Printed ''Files created successfully.''] \<and>
           argv w' = argv w \<and> environ w' = environ w"
  using assms
proof (cases rule: main_cases)
  case (finished w1 C)
  from reset_Ok_fs [OF finished(1)] obtain evs where
    evs: "events w1 = events w @ evs" "\<forall>s. Printed s \<notin> set evs" by blast
  let ?evs = "evs @ [MadeDir dir]"
  from evs(2) have "\<forall>s. Printed s \<notin> set ?evs" by simp
  moreover from finished(7) evs(1) have
    "events w' = events w @ (?evs @ written C (py_range 51)) @
                       [Printed ''Files created successfully.'']" by simp
  moreover from finished(7) have "fs w' = AList.delete ''hard_docs'' (fs w) @
                     [(''hard_docs'', Dir (expected C (py_range 51)))]"
    "argv w' = argv w" "environ w' = environ w" by simp_all
  ultimately show ?thesis using finished(2) by blast
qed simp_all

lemma main_Ok_stdout:
  assumes "main en w = (Ok u, w')"
  shows "stdout w' = stdout w @ ''Files created successfully.'' @ [CHR 0x0A]"
proof -
  from main_Ok [OF assms] obtain C evs where
    q: "\<forall>s. Printed s \<notin> set evs" and
    e: "events w' = events w @ (evs @ written C (py_range 51)) @
                       [Printed ''Files created successfully.'']" by blast
  have "\<forall>s. Printed s \<notin> set (evs @ written C (py_range 51))"
    using q by (simp add: written_quiet)
  then have "concat (map printed (evs @ written C (py_range 51))) = []"
    by (rule quiet_stdout)
  then show ?thesis unfolding stdout_def e by simp
qed

lemma lookup_expected:
  "i \<in> set is \<Longrightarrow> map_of (expected C is) (file_name i) = Some (File (file_content C i))"
  "name \<notin> set (map file_name is) \<Longrightarrow> map_of (expected C is) name = None"
proof -
  show "i \<in> set is \<Longrightarrow> map_of (expected C is) (file_name i) = Some (File (file_content C i))"
    by (induction "is") (auto simp: expected_def dest: file_name_inj)
  show "name \<notin> set (map file_name is) \<Longrightarrow> map_of (expected C is) name = None"
    by (induction "is") (auto simp: expected_def)
qed

lemma lookup_in_dir:
  "lookup (AList.delete ''hard_docs'' es @ [(''hard_docs'', Dir sub)]) (os_path_join dir name) =
     map_of sub name"
  by (simp add: paths map_add_def AList.delete_conv' split: option.splits)

section \<open>Properties of the specification\<close>

lemma env_ok_denies: "\<forall>c. \<not> denies env_ok c"
  by (simp add: env_ok_def)

lemma run_stale:
  "main env_ok w_stale = (Ok (), snd (main env_ok w_stale))"
  "fs (snd (main env_ok w_stale)) =
     [(''docs.txt'', File hello_world), (''hard_docs'', Dir (expected hello_world (py_range 51)))]"
proof -
  have d: "lookup (fs w_stale) docs_path = Some (File hello_world)"
    by (simp add: w_stale_def paths)
  have o: "lookup (fs w_stale) dir = None \<or>
      (\<exists>es. lookup (fs w_stale) dir = Some (Dir es) \<and> distinct (map fst es) \<and>
            (\<forall>(k, x)\<in>set es. is_File x))"
    by (simp add: w_stale_def paths)
  have dec: "decodable (encoding env_ok (environ w_stale)) hello_world"
    by (simp add: env_ok_def hello_world_text del: decodable.simps)
  note m = main_succeeds [OF env_ok_denies d dec o]
  show "main env_ok w_stale = (Ok (), snd (main env_ok w_stale))"
    by (simp add: m)
  show "fs (snd (main env_ok w_stale)) =
     [(''docs.txt'', File hello_world), (''hard_docs'', Dir (expected hello_world (py_range 51)))]"
    by (simp add: m hello_world_text) (simp add: w_stale_def)
qed

lemma str_7: "str 7 = ''7''"
  by code_simp







lemma run_fresh:
  "main env_ok w_fresh = (Ok (), snd (main env_ok w_fresh))"
  "fs (snd (main env_ok w_fresh)) =
     [(''docs.txt'', File hello_world), (''hard_docs'', Dir (expected hello_world (py_range 51)))]"
proof -
  have d: "lookup (fs w_fresh) docs_path = Some (File hello_world)"
    by (simp add: w_fresh_def paths)
  have o: "lookup (fs w_fresh) dir = None \<or>
      (\<exists>es. lookup (fs w_fresh) dir = Some (Dir es) \<and> distinct (map fst es) \<and>
            (\<forall>(k, x)\<in>set es. is_File x))"
    by (simp add: w_fresh_def paths)
  have dec: "decodable (encoding env_ok (environ w_fresh)) hello_world"
    by (simp add: env_ok_def hello_world_text del: decodable.simps)
  note m = main_succeeds [OF env_ok_denies d dec o]
  show "main env_ok w_fresh = (Ok (), snd (main env_ok w_fresh))"
    by (simp add: m)
  show "fs (snd (main env_ok w_fresh)) =
     [(''docs.txt'', File hello_world), (''hard_docs'', Dir (expected hello_world (py_range 51)))]"
    by (simp add: m hello_world_text) (simp add: w_fresh_def)
qed

text \<open>
  C6. When \<open>docs.txt\<close> holds \<open>Hello\<close>, a newline and \<open>World\<close>, a successful run leaves
  in \<open>hard_docs/7.txt\<close> exactly \<open>7\<close>, a newline, \<open>Hello\<close>, a newline and \<open>World\<close>, with
  nothing after it, and the last thing on standard output is the line
  \<open>Files created successfully.\<close>
\<close>

theorem hello_world_scenario:
  assumes "lookup (fs w) docs_path = Some (File (''Hello'' @ [CHR 0x0A] @ ''World''))"
    and "main en w = (Ok (), w')"
  shows "lookup (fs w') (os_path_join dir ''7.txt'') =
           Some (File (''7'' @ [CHR 0x0A] @ ''Hello'' @ [CHR 0x0A] @ ''World'')) \<and>
         stdout w' = stdout w @ ''Files created successfully.'' @ [CHR 0x0A]"
proof -
  let ?C = "''Hello'' @ [CHR 0x0A] @ ''World''"
  have nl: "universal_newlines ?C = ?C" by simp
  from main_Ok [OF assms(2)] assms(1) nl have
    f: "fs w' = AList.delete ''hard_docs'' (fs w) @
                  [(''hard_docs'', Dir (expected ?C (py_range 51)))]"
    by auto
  have "7 \<in> set (py_range 51)" by (simp add: py_range_def)
  then have "map_of (expected ?C (py_range 51)) (file_name 7) = Some (File (file_content ?C 7))"
    by (rule lookup_expected)
  then have "lookup (fs w') (os_path_join dir (file_name 7)) = Some (File (file_content ?C 7))"
    unfolding f lookup_in_dir .
  then have "lookup (fs w') (os_path_join dir ''7.txt'') =
           Some (File (''7'' @ [CHR 0x0A] @ ''Hello'' @ [CHR 0x0A] @ ''World''))"
    by (simp add: file_name_def file_content_def str_7)
  with main_Ok_stdout [OF assms(2)] show ?thesis by simp
qed

theorem hello_world_scenario_witness:
  "lookup (fs w_fresh) docs_path = Some (File (''Hello'' @ [CHR 0x0A] @ ''World'')) \<and>
   main env_ok w_fresh = (Ok (), snd (main env_ok w_fresh)) \<and>
   lookup (fs (snd (main env_ok w_fresh))) (os_path_join dir ''7.txt'') =
     Some (File (''7'' @ [CHR 0x0A] @ ''Hello'' @ [CHR 0x0A] @ ''World'')) \<and>
   stdout (snd (main env_ok w_fresh)) = ''Files created successfully.'' @ [CHR 0x0A]"
proof -
  have d: "lookup (fs w_fresh) docs_path = Some (File (''Hello'' @ [CHR 0x0A] @ ''World''))"
    by (simp add: w_fresh_def paths hello_world_def)
  have "stdout w_fresh = []" by (simp add: stdout_def w_fresh_def)
  with hello_world_scenario [OF d run_fresh(1)] d run_fresh(1) show ?thesis by simp
qed

text \<open>
  A run that has succeeded can be repeated under the same encoding: it left only plain
  files behind.
\<close>

lemma rerun_succeeds:
  assumes "main en w = (Ok (), w1)" and "\<forall>c. \<not> denies en2 c"
    and "encoding en2 = encoding en"
  shows "\<exists>w2. main en2 w1 = (Ok (), w2)"
proof -
  from main_Ok [OF assms(1)] obtain C bs where
    bs: "lookup (fs w) docs_path = Some (File bs)" and
    dec: "decodable (encoding en (environ w)) bs" and
    f: "fs w1 = AList.delete ''hard_docs'' (fs w) @
                  [(''hard_docs'', Dir (expected C (py_range 51)))]" and
    ev: "environ w1 = environ w"
    by blast
  have d: "lookup (fs w1) docs_path = Some (File bs)"
    unfolding f lookup_after_mkdir by (rule bs)
  from dec ev assms(3) have dec2: "decodable (encoding en2 (environ w1)) bs" by simp
  have "lookup (fs w1) dir = Some (Dir (expected C (py_range 51)))"
    unfolding f by (rule lookup_after_mkdir)
  moreover have "distinct (map fst (expected C (py_range 51)))"
    by (rule expected_files) (rule distinct_range)
  moreover have "\<forall>(k, x)\<in>set (expected C (py_range 51)). is_File x"
    by (rule expected_files)
  ultimately have "lookup (fs w1) dir = None \<or>
      (\<exists>es. lookup (fs w1) dir = Some (Dir es) \<and> distinct (map fst es) \<and>
            (\<forall>(k, x)\<in>set es. is_File x))"
    by blast
  from main_succeeds [OF assms(2) d dec2 this] show ?thesis by blast
qed

lemma delete_after_mkdir:
  "AList.delete ''hard_docs'' (AList.delete ''hard_docs'' es @ [(''hard_docs'', n)]) =
   AList.delete ''hard_docs'' es"
  by (simp add: delete_filter)

text \<open>
  C3. Running the procedure twice in succession, the second run starting from what the
  first one left (so with the same \<open>docs.txt\<close>), gives the same output both times: the
  file system after the second run, and with it every file of \<open>hard_docs\<close>, equals the
  file system after the first.
\<close>

theorem second_run_same_output:
  assumes "main en1 w = (Ok (), w1)" and "main en2 w1 = (Ok (), w2)"
  shows "lookup (fs w1) docs_path = lookup (fs w) docs_path \<and>
         lookup (fs w2) dir = lookup (fs w1) dir \<and> fs w2 = fs w1"
proof -
  from main_Ok [OF assms(1)] obtain C where
    C: "\<exists>bs. lookup (fs w) docs_path = Some (File bs) \<and> C = universal_newlines bs" and
    f1: "fs w1 = AList.delete ''hard_docs'' (fs w) @
                  [(''hard_docs'', Dir (expected C (py_range 51)))]"
    by blast
  have d: "lookup (fs w1) docs_path = lookup (fs w) docs_path"
    unfolding f1 by (rule lookup_after_mkdir)
  from main_Ok [OF assms(2)] obtain C' where
    C': "\<exists>bs. lookup (fs w1) docs_path = Some (File bs) \<and> C' = universal_newlines bs" and
    f2: "fs w2 = AList.delete ''hard_docs'' (fs w1) @
                  [(''hard_docs'', Dir (expected C' (py_range 51)))]"
    by blast
  from C C' d have "C' = C" by auto
  then have "fs w2 = fs w1"
    unfolding f2 unfolding f1 delete_after_mkdir by simp
  with d show ?thesis by simp
qed

theorem second_run_same_output_witness:
  "main env_ok w_stale = (Ok (), snd (main env_ok w_stale)) \<and>
   main env_ok (snd (main env_ok w_stale)) =
     (Ok (), snd (main env_ok (snd (main env_ok w_stale)))) \<and>
   fs (snd (main env_ok (snd (main env_ok w_stale)))) = fs (snd (main env_ok w_stale)) \<and>
   fs (snd (main env_ok w_stale)) \<noteq> fs w_stale"
proof -
  from rerun_succeeds [OF run_stale(1) env_ok_denies refl] have
    two: "main env_ok (snd (main env_ok w_stale)) =
            (Ok (), snd (main env_ok (snd (main env_ok w_stale))))"
    by auto
  from second_run_same_output [OF run_stale(1) two] have
    "fs (snd (main env_ok (snd (main env_ok w_stale)))) = fs (snd (main env_ok w_stale))"
    by simp
  moreover have "fs (snd (main env_ok w_stale)) \<noteq> fs w_stale"
    unfolding run_stale(2) by (simp add: w_stale_def)
  ultimately show ?thesis using run_stale(1) two by simp
qed

subsection \<open>What a run takes from its invocation\<close>













lemma run_nested:
  "main env_ok w_nested =
     (Raise (IsADirectoryError, Remove [''hard_docs'', ''sub'']),
      w_nested\<lparr>fs := [(''docs.txt'', File hello_world), (''hard_docs'', Dir [(''sub'', Dir [])])],
                events := [Removed [''hard_docs'', ''0.txt'']]\<rparr>)"
  by (simp add: main_def reset_def os_path_exists_def os_listdir_def os_remove_def
      w_nested_def env_ok_def paths)




text \<open>
  C2. The directory-reset step. If the output directory path does not exist, the step
  returns and changes nothing. If it exists and the step completes, then it was a directory
  holding plain files only, each entry directly inside it has been removed by one
  \<open>os.remove\<close> (in listing order, nothing below an entry is visited), the directory itself
  has been removed after them, and the rest of the file system is as before.
\<close>

theorem reset_contract:
  "(lookup (fs w) dir = None \<longrightarrow> reset en w = (Ok (), w)) \<and>
   (\<forall>n w'. lookup (fs w) dir = Some n \<and> reset en w = (Ok (), w') \<longrightarrow>
      (\<exists>es. n = Dir es \<and> (\<forall>(k, x)\<in>set es. is_File x) \<and>
         events w' = events w @ map (\<lambda>k. Removed (os_path_join dir k)) (map fst es)
                     @ [RemovedDir dir] \<and>
         lookup (fs w') dir = None \<and>
         fs w' = AList.delete ''hard_docs'' (fs w)))"
proof (intro conjI impI allI)
  assume "lookup (fs w) dir = None"
  then show "reset en w = (Ok (), w)" by (rule reset_absent)
next
  fix n w'
  assume a: "lookup (fs w) dir = Some n \<and> reset en w = (Ok (), w')"
  then have "reset en w = (Ok (), w')" and "lookup (fs w) dir = Some n" by simp_all
  from reset_Ok [OF this] obtain es where
    n: "n = Dir es" and files: "\<forall>(k, x)\<in>set es. is_File x" and
    w': "w' = w\<lparr>fs := AList.delete ''hard_docs'' (fs w),
                events := events w @ map (\<lambda>k. Removed (os_path_join dir k)) (map fst es)
                          @ [RemovedDir dir]\<rparr>"
    by blast
  have "lookup (fs w') dir = None"
    by (simp add: w' paths AList.delete_conv')
  with n files w' show "\<exists>es. n = Dir es \<and> (\<forall>(k, x)\<in>set es. is_File x) \<and>
         events w' = events w @ map (\<lambda>k. Removed (os_path_join dir k)) (map fst es)
                     @ [RemovedDir dir] \<and>
         lookup (fs w') dir = None \<and>
         fs w' = AList.delete ''hard_docs'' (fs w)"
    by simp
qed

lemma reset_stale:
  "reset env_ok w_stale =
     (Ok (), w_stale\<lparr>fs := [(''docs.txt'', File hello_world)],
                     events := [Removed [''hard_docs'', ''stale.txt''], RemovedDir [''hard_docs'']]\<rparr>)"
  by (simp add: reset_def os_path_exists_def os_listdir_def os_remove_def os_rmdir_def
      w_stale_def env_ok_def paths)

theorem reset_contract_witness:
  "lookup (fs w_fresh) dir = None \<and> reset env_ok w_fresh = (Ok (), w_fresh) \<and>
   lookup (fs w_stale) dir = Some (Dir [(''stale.txt'', File ''old'')]) \<and>
   fst (reset env_ok w_stale) = Ok () \<and>
   events (snd (reset env_ok w_stale)) =
     [Removed [''hard_docs'', ''stale.txt''], RemovedDir [''hard_docs'']] \<and>
   fs (snd (reset env_ok w_stale)) = [(''docs.txt'', File hello_world)]"
proof -
  have a: "lookup (fs w_fresh) dir = None" by (simp add: w_fresh_def paths)
  have b: "lookup (fs w_stale) dir = Some (Dir [(''stale.txt'', File ''old'')])"
    by (simp add: w_stale_def paths)
  from reset_contract [of w_fresh env_ok] a have "reset env_ok w_fresh = (Ok (), w_fresh)"
    by blast
  moreover from reset_contract [of w_stale env_ok] b reset_stale have
    "events (snd (reset env_ok w_stale)) = events w_stale @
       map (\<lambda>k. Removed (os_path_join dir k)) (map fst [(''stale.txt'', File ''old'')])
         @ [RemovedDir dir] \<and>
     fs (snd (reset env_ok w_stale)) = AList.delete ''hard_docs'' (fs w_stale)"
    by fastforce
  then have "events (snd (reset env_ok w_stale)) =
     [Removed [''hard_docs'', ''stale.txt''], RemovedDir [''hard_docs'']] \<and>
   fs (snd (reset env_ok w_stale)) = [(''docs.txt'', File hello_world)]"
    by (simp add: w_stale_def paths)
  ultimately show ?thesis using a b reset_stale by simp
qed

text \<open>
  C5. If an entry inside the existing output directory cannot be removed during cleanup,
  because it is itself a directory or because the system refuses the removal, then the
  reset step raises, the same error ends the whole run, and the success message is not
  printed.
\<close>

theorem cleanup_failure_propagates:
  assumes "lookup (fs w) (os_path_join dir name) = Some x"
    and "\<not> is_File x \<or> denies en (Remove (os_path_join dir name))"
  shows "\<exists>e w'. reset en w = (Raise e, w') \<and> main en w = (Raise e, w') \<and>
           stdout w' = stdout w \<and>
           Printed ''Files created successfully.'' \<notin> set (drop (length (events w)) (events w'))"
proof -
  from assms(1) obtain es where
    m: "map_of (fs w) ''hard_docs'' = Some (Dir es)" and x: "map_of es name = Some x"
    by (auto simp: paths split: option.splits node.splits)
  from m have ex: "os_path_exists dir w" by (simp add: os_path_exists_def paths)
  from x have mem: "name \<in> set (map fst es)"
    by (metis map_of_eq_None_iff option.distinct(1) set_map)
  from assms(2) have bad: "\<not> is_File x \<or> denies en (Remove [''hard_docs'', name])"
    by (simp add: paths)
  obtain r w' where rw: "reset en w = (r, w')" by (cases "reset en w")
  have "\<exists>e. r = Raise e"
  proof (cases r)
    case (Ok u)
    with rw have "reset en w = (Ok (), w')" by simp
    with ex m obtain w2 where
      "remove_each en (map fst es) w = (Ok (), w2)"
      by (auto simp: reset_def seq_eq_Ok os_listdir_Ok paths)
    with remove_each_fails [OF m mem x bad] show ?thesis by simp
  next
    case (Raise e)
    then show ?thesis by blast
  qed
  then obtain e where e: "reset en w = (Raise e, w')" using rw by blast
  then have main: "main en w = (Raise e, w')" by (simp add: main_def)
  from reset_Raise [OF e] obtain removed where
    ev: "events w' = events w @ map (\<lambda>f. Removed (os_path_join dir f)) removed"
    by blast
  have "stdout w' = stdout w"
    unfolding stdout_def ev by (simp add: comp_def)
  moreover have "Printed ''Files created successfully.'' \<notin>
                   set (drop (length (events w)) (events w'))"
    unfolding ev by auto
  ultimately show ?thesis using e main by blast
qed

theorem cleanup_failure_propagates_witness:
  "lookup (fs w_nested) (os_path_join dir ''sub'') = Some (Dir []) \<and> \<not> is_File (Dir []) \<and>
   fst (reset env_ok w_nested) = Raise (IsADirectoryError, Remove [''hard_docs'', ''sub'']) \<and>
   fst (main env_ok w_nested) = Raise (IsADirectoryError, Remove [''hard_docs'', ''sub'']) \<and>
   stdout (snd (main env_ok w_nested)) = []"
proof -
  have l: "lookup (fs w_nested) (os_path_join dir ''sub'') = Some (Dir [])"
    by (simp add: w_nested_def paths)
  have b: "\<not> is_File (Dir []) \<or> denies env_ok (Remove (os_path_join dir ''sub''))"
    by simp
  have s: "stdout w_nested = []" by (simp add: stdout_def w_nested_def)
  from cleanup_failure_propagates [OF l b] obtain e w' where
    "reset env_ok w_nested = (Raise e, w')" "main env_ok w_nested = (Raise e, w')"
    "stdout w' = stdout w_nested"
    by blast
  with run_nested l s show ?thesis by simp
qed

subsection \<open>Runs that raise\<close>

lemma generate_Raise_empty:
  assumes "generate en C (py_range n) w = (Raise e, w')"
    and "lookup (fs w) dir = Some (Dir [])"
  shows "\<exists>j<n. (e = (OSError, OpenWrite (os_path_join dir (file_name j))) \<and>
                denies en (OpenWrite (os_path_join dir (file_name j))) \<and>
                lookup (fs w') dir = Some (Dir (expected C [0..<j])) \<and>
                events w' = events w @ written C [0..<j]) \<or>
               (e = (OSError, Write (os_path_join dir (file_name j))) \<and>
                denies en (Write (os_path_join dir (file_name j))) \<and>
                lookup (fs w') dir = Some (Dir (expected C [0..<j] @
                  [(file_name j, File (take (flushed en (os_path_join dir (file_name j)))
                                            (file_content C j)))])) \<and>
                events w' = events w @ written C [0..<j] @
                  [Opened (os_path_join dir (file_name j)),
                   Wrote (os_path_join dir (file_name j))
                     (take (flushed en (os_path_join dir (file_name j))) (file_content C j))])"
proof -
  from assms(2) have m: "map_of (fs w) ''hard_docs'' = Some (Dir [])" by (simp add: paths)
  have fr: "file_name ` set (py_range n) \<inter> fst ` set [] = {}" by simp
  from generate_Raise [OF assms(1) m distinct_range(1) fr] obtain pre j post where
    split: "py_range n = pre @ j # post" and
    alt: "(e = (OSError, OpenWrite (os_path_join dir (file_name j))) \<and>
         denies en (OpenWrite (os_path_join dir (file_name j))) \<and>
         w' = w\<lparr>fs := AList.update ''hard_docs'' (Dir ([] @ expected C pre)) (fs w),
                 events := events w @ written C pre\<rparr>) \<or>
        (e = (OSError, Write (os_path_join dir (file_name j))) \<and>
         denies en (Write (os_path_join dir (file_name j))) \<and>
         w' = w\<lparr>fs := AList.update ''hard_docs''
                    (Dir ([] @ expected C pre @
                       [(file_name j, File (take (flushed en (os_path_join dir (file_name j)))
                                                 (file_content C j)))])) (fs w),
                 events := events w @ written C pre @
                    [Opened (os_path_join dir (file_name j)),
                     Wrote (os_path_join dir (file_name j))
                       (take (flushed en (os_path_join dir (file_name j))) (file_content C j))]\<rparr>)"
    by blast
  from split have "[0..<n] = pre @ j # post" by (simp add: py_range_def)
  then have "\<forall>i<length pre. pre ! i = i" and "j = length pre" and "j < n"
  proof -
    assume s: "[0..<n] = pre @ j # post"
    then have len: "n = length pre + Suc (length post)"
      by (metis length_upt diff_zero length_append length_Cons)
    show "\<forall>i<length pre. pre ! i = i"
    proof (intro allI impI)
      fix i assume i: "i < length pre"
      then have "pre ! i = (pre @ j # post) ! i" by (simp add: nth_append)
      also have "\<dots> = [0..<n] ! i" by (simp add: s)
      also have "\<dots> = i"
      proof -
        from i len have "i < n" by simp
        then show ?thesis by simp
      qed
      finally show "pre ! i = i" .
    qed
    have "j = (pre @ j # post) ! length pre" by simp
    also have "\<dots> = [0..<n] ! length pre" by (simp add: s)
    also have "\<dots> = length pre"
    proof -
      from len have "length pre < n" by simp
      then show ?thesis by simp
    qed
    finally show "j = length pre" .
    then show "j < n" using len by simp
  qed
  then have pre: "pre = [0..<j]" and jn: "j < n"
    by (auto intro: nth_equalityI)
  have lk: "lookup (fs (w\<lparr>fs := AList.update ''hard_docs'' n' (fs w), events := ev\<rparr>)) dir = Some n'"
    for n' ev by (simp add: paths AList.update_conv')
  from alt show ?thesis
  proof
    assume "e = (OSError, OpenWrite (os_path_join dir (file_name j))) \<and>
         denies en (OpenWrite (os_path_join dir (file_name j))) \<and>
         w' = w\<lparr>fs := AList.update ''hard_docs'' (Dir ([] @ expected C pre)) (fs w),
                 events := events w @ written C pre\<rparr>"
    with lk pre jn show ?thesis by auto
  next
    assume "e = (OSError, Write (os_path_join dir (file_name j))) \<and>
         denies en (Write (os_path_join dir (file_name j))) \<and>
         w' = w\<lparr>fs := AList.update ''hard_docs''
                    (Dir ([] @ expected C pre @
                       [(file_name j, File (take (flushed en (os_path_join dir (file_name j)))
                                                 (file_content C j)))])) (fs w),
                 events := events w @ written C pre @
                    [Opened (os_path_join dir (file_name j)),
                     Wrote (os_path_join dir (file_name j))
                       (take (flushed en (os_path_join dir (file_name j))) (file_content C j))]\<rparr>"
    with lk pre jn show ?thesis by auto
  qed
qed

lemma main_Raise_quiet:
  assumes "main en w = (Raise e, w')"
  shows "\<exists>evs. events w' = events w @ evs \<and> (\<forall>s. Printed s \<notin> set evs)"
  using assms
proof (cases rule: main_cases)
  case (at_reset e')
  from reset_Raise [OF at_reset(1)] obtain removed where
    "events w' = events w @ map (\<lambda>f. Removed (os_path_join dir f)) removed" by blast
  moreover have "\<forall>s. Printed s \<notin> set (map (\<lambda>f. Removed (os_path_join dir f)) removed)"
    by auto
  ultimately show ?thesis by blast
next
  case (at_mkdir w1 k)
  with reset_Ok_fs [OF at_mkdir(1)] show ?thesis by simp
next
  case (at_source w1 k)
  from reset_Ok_fs [OF at_source(1)] obtain evs where
    "events w1 = events w @ evs" "\<forall>s. Printed s \<notin> set evs" by blast
  with at_source(3) have "events w' = events w @ (evs @ [MadeDir dir])"
    "\<forall>s. Printed s \<notin> set (evs @ [MadeDir dir])" by simp_all
  then show ?thesis by blast
next
  case (at_generate w1 C e')
  from reset_Ok_fs [OF at_generate(1)] obtain evs where
    evs: "events w1 = events w @ evs" "\<forall>s. Printed s \<notin> set evs" by blast
  let ?w2 = "w\<lparr>fs := AList.delete ''hard_docs'' (fs w) @ [(''hard_docs'', Dir [])],
            events := events w1 @ [MadeDir dir]\<rparr>"
  have l2: "lookup (fs ?w2) dir = Some (Dir [])" by (simp add: lookup_after_mkdir)
  from generate_Raise_empty [OF at_generate(3) l2] obtain j t where
    "events w' = events ?w2 @ written C [0..<j] \<or>
     events w' = events ?w2 @ written C [0..<j] @
        [Opened (os_path_join dir (file_name j)), Wrote (os_path_join dir (file_name j)) t]"
    by blast
  then show ?thesis
  proof
    assume "events w' = events ?w2 @ written C [0..<j]"
    with evs have "events w' = events w @ (evs @ [MadeDir dir] @ written C [0..<j])"
      "\<forall>s. Printed s \<notin> set (evs @ [MadeDir dir] @ written C [0..<j])"
      by (simp_all add: written_quiet)
    then show ?thesis by blast
  next
    assume "events w' = events ?w2 @ written C [0..<j] @
        [Opened (os_path_join dir (file_name j)), Wrote (os_path_join dir (file_name j)) t]"
    with evs have "events w' = events w @ (evs @ [MadeDir dir] @ written C [0..<j] @
        [Opened (os_path_join dir (file_name j)), Wrote (os_path_join dir (file_name j)) t])"
      "\<forall>s. Printed s \<notin> set (evs @ [MadeDir dir] @ written C [0..<j] @
        [Opened (os_path_join dir (file_name j)), Wrote (os_path_join dir (file_name j)) t])"
      by (simp_all add: written_quiet)
    then show ?thesis by blast
  qed
qed simp_all

lemma main_Raise_stdout:
  assumes "main en w = (Raise e, w')"
  shows "stdout w' = stdout w"
proof -
  from main_Raise_quiet [OF assms] obtain evs where
    "events w' = events w @ evs" "\<forall>s. Printed s \<notin> set evs" by blast
  then show ?thesis by (simp add: stdout_def quiet_stdout)
qed

lemma reset_Ok_events:
  assumes "reset en w = (Ok u, w')"
  shows "\<exists>evs. events w' = events w @ evs \<and>
           (\<forall>e\<in>set evs. \<exists>p. e = Removed p \<or> e = RemovedDir p)"
proof (cases "lookup (fs w) dir")
  case None
  with reset_absent [OF None, of en] assms have "events w' = events w @ []" by simp
  then show ?thesis by fastforce
next
  case (Some n)
  from reset_Ok [OF assms Some] obtain es where
    "n = Dir es" and "\<forall>(k, x)\<in>set es. is_File x" and
    "w' = w\<lparr>fs := AList.delete ''hard_docs'' (fs w),
             events := events w @ map (\<lambda>k. Removed (os_path_join dir k)) (map fst es)
                             @ [RemovedDir dir]\<rparr>"
    by blast
  then have "events w' = events w @ (map (\<lambda>k. Removed (os_path_join dir k)) (map fst es)
                             @ [RemovedDir dir])"
    by simp
  moreover have "\<forall>e\<in>set (map (\<lambda>k. Removed (os_path_join dir k)) (map fst es)
                             @ [RemovedDir dir]). \<exists>p. e = Removed p \<or> e = RemovedDir p"
    by auto
  ultimately show ?thesis by blast
qed

lemma run_nodocs:
  "main env_ok w_nodocs =
     (Raise (FileNotFoundError, OpenRead [''docs.txt'']),
      w_nodocs\<lparr>fs := [(''hard_docs'', Dir [])],
                events := [Removed [''hard_docs'', ''stale.txt''], RemovedDir [''hard_docs''],
                           MadeDir [''hard_docs'']]\<rparr>)"
  by (simp add: main_def reset_def os_path_exists_def os_listdir_def os_remove_def os_rmdir_def
      os_mkdir_def open_r_def w_nodocs_def env_ok_def paths)

text \<open>
  C9. The reset and the re-creation of \<open>hard_docs\<close> are both complete before \<open>docs.txt\<close>
  is opened. So whenever the run fails at the source-read step, in \<open>open\<close> or in \<open>read\<close>,
  \<open>hard_docs\<close> exists and is empty: it is never absent and holds no output file, and the
  last effect before the failure is the creation of the directory.
\<close>

theorem source_failure_leaves_empty_dir:
  assumes "main en w = (Raise (k, c), w')"
    and "c = OpenRead docs_path \<or> c = Read docs_path"
  shows "lookup (fs w') dir = Some (Dir []) \<and>
         (\<exists>evs. events w' = events w @ evs @ [MadeDir dir])"
  using assms(1)
proof (cases rule: main_cases)
  case (at_reset e)
  from reset_Raise [OF at_reset(1)] at_reset(2) have
    "c = Listdir dir \<or> c = Rmdir dir \<or> (\<exists>f. c = Remove (os_path_join dir f))"
    by auto
  with assms(2) show ?thesis by auto
next
  case (at_mkdir w1 k')
  with assms(2) show ?thesis by auto
next
  case (at_source w1 k')
  from reset_Ok_fs [OF at_source(1)] obtain evs where "events w1 = events w @ evs" by blast
  with at_source(3) have "events w' = events w @ evs @ [MadeDir dir]" by simp
  moreover from at_source(3) have "lookup (fs w') dir = Some (Dir [])"
    by (simp add: lookup_after_mkdir)
  ultimately show ?thesis by blast
next
  case (at_generate w1 C e)
  let ?w2 = "w\<lparr>fs := AList.delete ''hard_docs'' (fs w) @ [(''hard_docs'', Dir [])],
            events := events w1 @ [MadeDir dir]\<rparr>"
  have l2: "lookup (fs ?w2) dir = Some (Dir [])" by (simp add: lookup_after_mkdir)
  from generate_Raise_empty [OF at_generate(3) l2] at_generate(4) have
    "\<exists>j. c = OpenWrite (os_path_join dir (file_name j)) \<or>
          c = Write (os_path_join dir (file_name j))"
    by auto
  with assms(2) show ?thesis by auto
qed simp_all

theorem source_failure_leaves_empty_dir_witness:
  "lookup (fs w_nodocs) dir = Some (Dir [(''stale.txt'', File ''old'')]) \<and>
   fst (main env_ok w_nodocs) = Raise (FileNotFoundError, OpenRead docs_path) \<and>
   lookup (fs (snd (main env_ok w_nodocs))) dir = Some (Dir [])"
proof -
  have r: "main env_ok w_nodocs =
             (Raise (FileNotFoundError, OpenRead docs_path), snd (main env_ok w_nodocs))"
    by (simp add: run_nodocs paths)
  have c: "OpenRead docs_path = OpenRead docs_path \<or> OpenRead docs_path = Read docs_path"
    by simp
  from source_failure_leaves_empty_dir [OF r c] have
    "lookup (fs (snd (main env_ok w_nodocs))) dir = Some (Dir [])" by simp
  moreover have "lookup (fs w_nodocs) dir = Some (Dir [(''stale.txt'', File ''old'')])"
    by (simp add: w_nodocs_def paths)
  moreover have "fst (main env_ok w_nodocs) = Raise (FileNotFoundError, OpenRead docs_path)"
    by (simp add: run_nodocs paths)
  ultimately show ?thesis by simp
qed

text \<open>
  C4, as stated, fails: with \<open>docs.txt\<close> missing, a run whose cleanup stops at a
  subdirectory leaves \<open>hard_docs\<close> as it was, and that may be the complete set of 51
  files of an earlier run.
\<close>

theorem missing_source_stale_set_survives:
  "lookup (fs w_subdir) docs_path = None \<and>
   fst (main env_ok w_subdir) = Raise (IsADirectoryError, Remove (os_path_join dir ''sub'')) \<and>
   lookup (fs (snd (main env_ok w_subdir))) dir =
     Some (Dir ((''sub'', Dir []) # expected ''old'' (py_range 51)))"
  by (simp add: main_def reset_def os_path_exists_def os_listdir_def os_remove_def
      w_subdir_def env_ok_def paths)

lemma run_nomkdir:
  "main env_nomkdir w_nodocs =
     (Raise (OSError, Mkdir [''hard_docs'']),
      w_nodocs\<lparr>fs := [],
                events := [Removed [''hard_docs'', ''stale.txt''], RemovedDir [''hard_docs'']]\<rparr>)"
  by (simp add: main_def reset_def os_path_exists_def os_listdir_def os_remove_def os_rmdir_def
      os_mkdir_def w_nodocs_def env_nomkdir_def paths)

lemma run_subdir:
  "main env_ok w_subdir = (Raise (IsADirectoryError, Remove [''hard_docs'', ''sub'']), w_subdir)"
  by (simp add: main_def reset_def os_path_exists_def os_listdir_def os_remove_def
      w_subdir_def env_ok_def paths)

lemma run_partial:
  "main env_ok w_partial =
     (Raise (IsADirectoryError, Remove [''hard_docs'', ''sub'']),
      w_partial\<lparr>fs := [(''hard_docs'', Dir [(''sub'', Dir [])])],
                 events := [Removed [''hard_docs'', ''0.txt'']]\<rparr>)"
  by (simp add: main_def reset_def os_path_exists_def os_listdir_def os_remove_def
      w_partial_def env_ok_def paths)

text \<open>
  C4, amended. If \<open>docs.txt\<close> does not exist, the run ends with a propagated error and
  the success message is not printed, and the run writes no output file. When the cleanup
  succeeds, \<open>hard_docs\<close> is left empty, or absent if its re-creation is refused. When the
  cleanup itself fails, the run ends there, and \<open>hard_docs\<close> is left as it was or with
  some of its earlier entries removed.
\<close>

theorem missing_source_fails:
  assumes "lookup (fs w) docs_path = None" and "main en w = (r, w')"
  shows "(\<exists>e. r = Raise e) \<and> stdout w' = stdout w \<and>
         (\<forall>p s. Opened p \<notin> set (drop (length (events w)) (events w')) \<and>
                 Wrote p s \<notin> set (drop (length (events w)) (events w'))) \<and>
         (case reset en w of
            (Ok u, w1) \<Rightarrow>
              (if denies en (Mkdir dir) then lookup (fs w') dir = None
               else lookup (fs w') dir = Some (Dir []))
          | (Raise e, w1) \<Rightarrow>
              r = Raise e \<and> w' = w1 \<and>
              (lookup (fs w') dir = lookup (fs w) dir \<or>
               (\<exists>es es'. lookup (fs w) dir = Some (Dir es) \<and>
                          lookup (fs w') dir = Some (Dir es') \<and> set es' \<subseteq> set es)))"
proof -
  have quiet: "stdout w' = stdout w" if "r = Raise e" for e
    using assms(2) that by (auto intro: main_Raise_stdout)
  from assms(2) show ?thesis
  proof (cases rule: main_cases)
    case (at_reset e)
    from reset_Raise [OF at_reset(1)] obtain n removed where
      n: "lookup (fs w) dir = Some n" and
      ev: "events w' = events w @ map (\<lambda>f. Removed (os_path_join dir f)) removed" and
      alt: "fs w' = fs w \<or>
            (\<exists>es es'. n = Dir es \<and> set es' \<subseteq> set es \<and>
               fs w' = AList.update ''hard_docs'' (Dir es') (fs w))"
      by blast
    from ev have "\<forall>p s. Opened p \<notin> set (drop (length (events w)) (events w')) \<and>
                 Wrote p s \<notin> set (drop (length (events w)) (events w'))"
      by auto
    moreover from alt n have "lookup (fs w') dir = lookup (fs w) dir \<or>
        (\<exists>es es'. lookup (fs w) dir = Some (Dir es) \<and> lookup (fs w') dir = Some (Dir es') \<and>
                     set es' \<subseteq> set es)"
      by (auto simp: paths AList.update_conv')
    moreover have "stdout w' = stdout w" using at_reset(2) by (rule quiet)
    ultimately show ?thesis using at_reset by simp
  next
    case (at_mkdir w1 k)
    from reset_Ok_fs [OF at_mkdir(1)] have f: "fs w1 = AList.delete ''hard_docs'' (fs w)"
      by simp
    from reset_Ok_events [OF at_mkdir(1)] obtain evs where
      "events w1 = events w @ evs" "\<forall>e\<in>set evs. \<exists>p. e = Removed p \<or> e = RemovedDir p"
      by blast
    then have "\<forall>p s. Opened p \<notin> set (drop (length (events w)) (events w1)) \<and>
                 Wrote p s \<notin> set (drop (length (events w)) (events w1))"
      by auto
    moreover have "lookup (fs w1) dir = None"
      by (simp add: f paths AList.delete_conv')
    moreover have "stdout w' = stdout w" using at_mkdir(2) by (rule quiet)
    ultimately show ?thesis using at_mkdir by simp
  next
    case (at_source w1 k)
    from reset_Ok_events [OF at_source(1)] obtain evs where
      "events w1 = events w @ evs" "\<forall>e\<in>set evs. \<exists>p. e = Removed p \<or> e = RemovedDir p"
      by blast
    with at_source(3) have "events w' = events w @ (evs @ [MadeDir dir])"
      "\<forall>e\<in>set (evs @ [MadeDir dir]). \<exists>p. e = Removed p \<or> e = RemovedDir p \<or> e = MadeDir p"
      by auto
    then have "\<forall>p s. Opened p \<notin> set (drop (length (events w)) (events w')) \<and>
                 Wrote p s \<notin> set (drop (length (events w)) (events w'))"
      by auto
    moreover from at_source(3) have "lookup (fs w') dir = Some (Dir [])"
      by (simp add: lookup_after_mkdir)
    moreover from at_source(2) have "\<exists>e. r = Raise e" by auto
    moreover from this have "stdout w' = stdout w" using quiet by blast
    ultimately show ?thesis using at_source(1,4) by simp
  next
    case (at_generate w1 C e)
    with assms(1) show ?thesis by simp
  next
    case (finished w1 C)
    with assms(1) show ?thesis by simp
  qed
qed

theorem missing_source_fails_witness:
  "lookup (fs w_nodocs) docs_path = None \<and>
   fst (reset env_ok w_nodocs) = Ok () \<and> \<not> denies env_ok (Mkdir dir) \<and>
   fst (main env_ok w_nodocs) = Raise (FileNotFoundError, OpenRead docs_path) \<and>
   stdout (snd (main env_ok w_nodocs)) = [] \<and>
   lookup (fs (snd (main env_ok w_nodocs))) dir = Some (Dir []) \<and>
   fst (reset env_nomkdir w_nodocs) = Ok () \<and> denies env_nomkdir (Mkdir dir) \<and>
   fst (main env_nomkdir w_nodocs) = Raise (OSError, Mkdir dir) \<and>
   lookup (fs (snd (main env_nomkdir w_nodocs))) dir = None \<and>
   lookup (fs w_subdir) docs_path = None \<and>
   fst (reset env_ok w_subdir) = Raise (IsADirectoryError, Remove (os_path_join dir ''sub'')) \<and>
   fst (main env_ok w_subdir) = Raise (IsADirectoryError, Remove (os_path_join dir ''sub'')) \<and>
   lookup (fs (snd (main env_ok w_subdir))) dir = lookup (fs w_subdir) dir \<and>
   lookup (fs w_partial) docs_path = None \<and>
   fst (main env_ok w_partial) = Raise (IsADirectoryError, Remove (os_path_join dir ''sub'')) \<and>
   lookup (fs w_partial) dir = Some (Dir [(''0.txt'', File ''old''), (''sub'', Dir [])]) \<and>
   lookup (fs (snd (main env_ok w_partial))) dir = Some (Dir [(''sub'', Dir [])])"
proof -
  have d: "lookup (fs w_nodocs) docs_path = None" by (simp add: w_nodocs_def paths)
  have ds: "lookup (fs w_subdir) docs_path = None" by (simp add: w_subdir_def paths)
  have dp: "lookup (fs w_partial) docs_path = None" by (simp add: w_partial_def paths)
  have pair: "main en w = (fst (main en w), snd (main en w))" for en w by simp
  have s: "stdout w_nodocs = []" by (simp add: stdout_def w_nodocs_def)
  have r1: "reset env_ok w_nodocs =
      (Ok (), w_nodocs\<lparr>fs := [],
         events := [Removed [''hard_docs'', ''stale.txt''], RemovedDir [''hard_docs'']]\<rparr>)"
    by (simp add: reset_def os_path_exists_def os_listdir_def os_remove_def os_rmdir_def
        w_nodocs_def env_ok_def paths)
  have r2: "reset env_nomkdir w_nodocs =
      (Ok (), w_nodocs\<lparr>fs := [],
         events := [Removed [''hard_docs'', ''stale.txt''], RemovedDir [''hard_docs'']]\<rparr>)"
    by (simp add: reset_def os_path_exists_def os_listdir_def os_remove_def os_rmdir_def
        w_nodocs_def env_nomkdir_def paths)
  have r3: "reset env_ok w_subdir =
      (Raise (IsADirectoryError, Remove [''hard_docs'', ''sub'']), w_subdir)"
    by (simp add: reset_def os_path_exists_def os_listdir_def os_remove_def
        w_subdir_def env_ok_def paths)
  have n1: "\<not> denies env_ok (Mkdir dir)" by (simp add: env_ok_def)
  have n2: "denies env_nomkdir (Mkdir dir)" by (simp add: env_nomkdir_def paths)
  from missing_source_fails [OF d pair [of env_ok w_nodocs]] s r1 n1 have
    "stdout (snd (main env_ok w_nodocs)) = []"
    "lookup (fs (snd (main env_ok w_nodocs))) dir = Some (Dir [])"
    by simp_all
  moreover from missing_source_fails [OF d pair [of env_nomkdir w_nodocs]] r2 n2 have
    "lookup (fs (snd (main env_nomkdir w_nodocs))) dir = None"
    by simp
  moreover from missing_source_fails [OF ds pair [of env_ok w_subdir]] r3 have
    "fst (main env_ok w_subdir) = Raise (IsADirectoryError, Remove [''hard_docs'', ''sub''])"
    "snd (main env_ok w_subdir) = w_subdir"
    by simp_all
  moreover have "fst (main env_ok w_nodocs) = Raise (FileNotFoundError, OpenRead docs_path)"
    by (simp add: run_nodocs paths)
  moreover have "fst (main env_nomkdir w_nodocs) = Raise (OSError, Mkdir dir)"
    by (simp add: run_nomkdir paths)
  moreover have "fst (main env_ok w_partial) =
      Raise (IsADirectoryError, Remove (os_path_join dir ''sub''))"
    "lookup (fs (snd (main env_ok w_partial))) dir = Some (Dir [(''sub'', Dir [])])"
    by (simp_all add: run_partial paths)
  moreover have "lookup (fs w_partial) dir = Some (Dir [(''0.txt'', File ''old''), (''sub'', Dir [])])"
    by (simp add: w_partial_def paths)
  ultimately show ?thesis using d ds dp r1 r2 r3 n1 n2 by (simp add: paths)
qed

text \<open>
  C7. The confirmation line is emitted exactly once per successful run and only after
  all 51 output files have been written: in a run that completes, the only \<open>print\<close> is
  the last effect, it prints \<open>Files created successfully.\<close>, and the effects just before
  it are the opening and writing of the files \<open>0.txt\<close>, ..., \<open>50.txt\<close>, all present in
  \<open>hard_docs\<close> by then. A run that raises, at whatever point, prints nothing.
\<close>

theorem success_message_once_at_end:
  assumes "main en w = (r, w')"
  shows "\<exists>evs. (\<forall>s. Printed s \<notin> set evs) \<and>
           (case r of
              Ok u \<Rightarrow>
                events w' = events w @ evs @ [Printed ''Files created successfully.''] \<and>
                (\<exists>C pre. evs = pre @ written C (py_range 51) \<and>
                   lookup (fs w') dir = Some (Dir (expected C (py_range 51))))
            | Raise e \<Rightarrow> events w' = events w @ evs)"
proof (cases r)
  case (Ok u)
  with assms have "main en w = (Ok u, w')" by simp
  from main_Ok [OF this] obtain C evs where
    f: "fs w' = AList.delete ''hard_docs'' (fs w) @
                     [(''hard_docs'', Dir (expected C (py_range 51)))]" and
    q: "\<forall>s. Printed s \<notin> set evs" and
    e: "events w' = events w @ (evs @ written C (py_range 51)) @
                       [Printed ''Files created successfully.'']"
    by blast
  from q have "\<forall>s. Printed s \<notin> set (evs @ written C (py_range 51))"
    by (simp add: written_quiet)
  moreover have "lookup (fs w') dir = Some (Dir (expected C (py_range 51)))"
    unfolding f by (rule lookup_after_mkdir)
  ultimately show ?thesis using Ok e by auto
next
  case (Raise e)
  with assms have "main en w = (Raise e, w')" by simp
  from main_Raise_quiet [OF this] Raise show ?thesis by auto
qed

theorem success_message_once_at_end_witness:
  "fst (main env_ok w_fresh) = Ok () \<and>
   last (events (snd (main env_ok w_fresh))) = Printed ''Files created successfully.'' \<and>
   (\<forall>s. Printed s \<notin> set (butlast (events (snd (main env_ok w_fresh))))) \<and>
   fst (main env_ok w_nodocs) = Raise (FileNotFoundError, OpenRead docs_path) \<and>
   (\<forall>s. Printed s \<notin> set (events (snd (main env_ok w_nodocs))))"
proof -
  have e: "events w_fresh = []" "events w_nodocs = []"
    by (simp_all add: w_fresh_def w_nodocs_def)
  have ok: "fst (main env_ok w_fresh) = Ok ()"
    using run_fresh(1) by (metis fst_conv)
  have bad: "main env_ok w_nodocs =
    (Raise (FileNotFoundError, OpenRead docs_path), snd (main env_ok w_nodocs))"
    by (simp add: run_nodocs paths)
  from success_message_once_at_end [OF run_fresh(1)] obtain evs where
    "\<forall>s. Printed s \<notin> set evs"
    "events (snd (main env_ok w_fresh)) =
       events w_fresh @ evs @ [Printed ''Files created successfully.'']"
    by auto
  with e have "last (events (snd (main env_ok w_fresh))) = Printed ''Files created successfully.''"
    "\<forall>s. Printed s \<notin> set (butlast (events (snd (main env_ok w_fresh))))"
    by (simp_all add: butlast_append)
  moreover from success_message_once_at_end [OF bad] e have
    "\<forall>s. Printed s \<notin> set (events (snd (main env_ok w_nodocs)))"
    by auto
  moreover have "fst (main env_ok w_nodocs) = Raise (FileNotFoundError, OpenRead docs_path)"
    by (simp add: run_nodocs paths)
  ultimately show ?thesis using ok by simp
qed

text \<open>
  C10, as stated, fails: when the write at index 3 is refused, \<open>3.txt\<close> has already been
  created by \<open>open\<close>, so the files left are not precisely those of the indices below 3.
\<close>

theorem write_failure_leaves_opened_file:
  "fst (main env_full w_fresh) = Raise (OSError, Write (os_path_join dir ''3.txt'')) \<and>
   lookup (fs (snd (main env_full w_fresh))) dir =
     Some (Dir [(''0.txt'', File (''0'' @ [CHR 0x0A] @ hello_world)),
                (''1.txt'', File (''1'' @ [CHR 0x0A] @ hello_world)),
                (''2.txt'', File (''2'' @ [CHR 0x0A] @ hello_world)),
                (''3.txt'', File [])])"
  by code_simp

text \<open>
  C10, amended. Started on the empty directory, the generation loop writes the files one
  at a time in increasing index order: for every \<open>k \<le> 51\<close> the loop over \<open>range(51)\<close> is
  the loop over the first \<open>k\<close> indices followed by the rest, and after these \<open>k\<close>
  iterations \<open>hard_docs\<close> holds exactly \<open>0.txt\<close>, ..., \<open>(k-1).txt\<close>, each with its
  final content. A failure at index \<open>j\<close> leaves the files of the indices below \<open>j\<close>,
  each with its final content, and, when it is the write that fails after \<open>open\<close> has
  created the file, also \<open>j.txt\<close> holding the part of its content that was written.
\<close>

theorem generation_in_index_order:
  assumes "lookup (fs w) dir = Some (Dir [])" and "k \<le> 51"
    and "generate en C (py_range k) w = (r, w')"
  shows "generate en C (py_range 51) w =
           seq (generate en C (py_range k) w) (\<lambda>_. generate en C [k..<51]) \<and>
         (case r of
            Ok u \<Rightarrow>
              lookup (fs w') dir = Some (Dir (expected C [0..<k])) \<and>
              events w' = events w @ written C [0..<k]
          | Raise e \<Rightarrow>
              (\<exists>j<k. (e = (OSError, OpenWrite (os_path_join dir (file_name j))) \<and>
                       lookup (fs w') dir = Some (Dir (expected C [0..<j])) \<and>
                       events w' = events w @ written C [0..<j]) \<or>
                      (e = (OSError, Write (os_path_join dir (file_name j))) \<and>
                       lookup (fs w') dir = Some (Dir (expected C [0..<j] @
                         [(file_name j, File (take (flushed en (os_path_join dir (file_name j)))
                                                   (file_content C j)))])) \<and>
                       events w' = events w @ written C [0..<j] @
                         [Opened (os_path_join dir (file_name j)),
                          Wrote (os_path_join dir (file_name j))
                            (take (flushed en (os_path_join dir (file_name j)))
                                  (file_content C j))])))"
proof (intro conjI)
  from assms(2) have "[0..<k + (51 - k)] = [0..<k] @ [k..<k + (51 - k)]"
    by (intro upt_add_eq_append) simp
  with assms(2) have "py_range 51 = py_range k @ [k..<51]"
    by (simp add: py_range_def)
  then show "generate en C (py_range 51) w =
           seq (generate en C (py_range k) w) (\<lambda>_. generate en C [k..<51])"
    by (simp add: generate_append)
next
  from assms(1) have m: "map_of (fs w) ''hard_docs'' = Some (Dir [])" by (simp add: paths)
  show "case r of
            Ok u \<Rightarrow>
              lookup (fs w') dir = Some (Dir (expected C [0..<k])) \<and>
              events w' = events w @ written C [0..<k]
          | Raise e \<Rightarrow>
              (\<exists>j<k. (e = (OSError, OpenWrite (os_path_join dir (file_name j))) \<and>
                       lookup (fs w') dir = Some (Dir (expected C [0..<j])) \<and>
                       events w' = events w @ written C [0..<j]) \<or>
                      (e = (OSError, Write (os_path_join dir (file_name j))) \<and>
                       lookup (fs w') dir = Some (Dir (expected C [0..<j] @
                         [(file_name j, File (take (flushed en (os_path_join dir (file_name j)))
                                                   (file_content C j)))])) \<and>
                       events w' = events w @ written C [0..<j] @
                         [Opened (os_path_join dir (file_name j)),
                          Wrote (os_path_join dir (file_name j))
                            (take (flushed en (os_path_join dir (file_name j)))
                                  (file_content C j))]))"
  proof (cases r)
    case (Ok u)
    with assms(3) have g: "generate en C (py_range k) w = (Ok u, w')" by simp
    have fr: "file_name ` set (py_range k) \<inter> fst ` set [] = {}" by simp
    from generate_Ok [OF g m distinct_range(1) fr] have
      "w' = w\<lparr>fs := AList.update ''hard_docs'' (Dir ([] @ expected C (py_range k))) (fs w),
              events := events w @ written C (py_range k)\<rparr>"
      by blast
    then have "lookup (fs w') dir = Some (Dir (expected C [0..<k]))"
      and "events w' = events w @ written C [0..<k]"
      by (simp_all add: paths AList.update_conv' py_range_def)
    with Ok show ?thesis by simp
  next
    case (Raise e)
    with assms(3) have g: "generate en C (py_range k) w = (Raise e, w')" by simp
    from generate_Raise_empty [OF g assms(1)] Raise show ?thesis by auto
  qed
qed

lemma loop_disk_full:
  "generate env_full hello_world (py_range 51) w_empty =
     (Raise (OSError, Write [''hard_docs'', ''3.txt'']),
      snd (generate env_full hello_world (py_range 51) w_empty))"
  "lookup (fs (snd (generate env_full hello_world (py_range 51) w_empty))) dir =
     Some (Dir [(''0.txt'', File (''0'' @ [CHR 0x0A] @ hello_world)),
                (''1.txt'', File (''1'' @ [CHR 0x0A] @ hello_world)),
                (''2.txt'', File (''2'' @ [CHR 0x0A] @ hello_world)),
                (''3.txt'', File [])])"
  by code_simp+

theorem generation_in_index_order_witness:
  "lookup (fs w_empty) dir = Some (Dir []) \<and> (51::nat) \<le> 51 \<and>
   fst (generate env_full hello_world (py_range 51) w_empty) =
     Raise (OSError, Write (os_path_join dir (file_name 3))) \<and>
   lookup (fs (snd (generate env_full hello_world (py_range 51) w_empty))) dir =
     Some (Dir (expected hello_world [0..<3] @ [(file_name 3, File [])]))"
proof -
  have l: "lookup (fs w_empty) dir = Some (Dir [])" by (simp add: w_empty_def paths)
  have k: "(51::nat) \<le> 51" by simp
  from generation_in_index_order [OF l k loop_disk_full(1)]
  have "\<exists>j<51. (Write [''hard_docs'', ''3.txt''] = OpenWrite (os_path_join dir (file_name j)) \<and>
                       lookup (fs (snd (generate env_full hello_world (py_range 51) w_empty))) dir
                         = Some (Dir (expected hello_world [0..<j]))) \<or>
                (Write [''hard_docs'', ''3.txt''] = Write (os_path_join dir (file_name j)) \<and>
                       lookup (fs (snd (generate env_full hello_world (py_range 51) w_empty))) dir
                         = Some (Dir (expected hello_world [0..<j] @
                         [(file_name j, File (take (flushed env_full (os_path_join dir (file_name j)))
                                                   (file_content hello_world j)))])))"
    by auto
  then obtain j where "Write [''hard_docs'', ''3.txt''] = Write (os_path_join dir (file_name j))"
    and lk: "lookup (fs (snd (generate env_full hello_world (py_range 51) w_empty))) dir
                         = Some (Dir (expected hello_world [0..<j] @
                         [(file_name j, File (take (flushed env_full (os_path_join dir (file_name j)))
                                                   (file_content hello_world j)))]))"
    by auto
  then have "file_name j = ''3.txt''" by (simp add: paths)
  moreover have "file_name 3 = ''3.txt''" by code_simp
  ultimately have "j = 3" by (metis file_name_inj)
  with lk have "lookup (fs (snd (generate env_full hello_world (py_range 51) w_empty))) dir =
     Some (Dir (expected hello_world [0..<3] @ [(file_name 3, File [])]))"
    by (simp add: env_full_def)
  moreover have "fst (generate env_full hello_world (py_range 51) w_empty) =
     Raise (OSError, Write (os_path_join dir (file_name 3)))"
    using loop_disk_full(1) \<open>file_name 3 = ''3.txt''\<close> by (metis fst_conv paths(1,3) append_Cons append_Nil)
  ultimately show ?thesis using l by simp
qed

end
